theory Spec2Isabelle
  imports Complex_Main "HOL-Library.Sublist"
begin

section \<open>The parallel agent orchestrator (scripts/parallel_orchestrator.py)\<close>

text \<open>
  A shallow embedding of \<^verbatim>\<open>AgentTask\<close> and \<^verbatim>\<open>Orchestrator\<close>. Python strings are
  \<^typ>\<open>string\<close> (one \<^typ>\<open>char\<close> per character, so the slices \<^verbatim>\<open>s[:n]\<close> are
  \<^term>\<open>take n s\<close>), \<^verbatim>\<open>None\<close> is \<^term>\<open>None\<close>, and an attribute that has not been assigned
  yet (\<^verbatim>\<open>self.error\<close> before a failure) is \<^term>\<open>None\<close> as well. Everything the program
  reads from its surroundings is a parameter: the clock, the identifiers drawn from
  \<^verbatim>\<open>uuid.uuid4()\<close>, the behaviour of the external command, the home directory and the order
  in which the threads of the pool are scheduled. \<^verbatim>\<open>debug_log\<close> and \<^verbatim>\<open>print\<close> touch
  none of the modelled state (\<^verbatim>\<open>debug_log\<close> swallows its own exceptions) and are left
  out; the storage under the home directory is taken to be writable.
\<close>

subsection \<open>Outcomes of a call\<close>

text \<open>
  A call returns a value, lets an \<^verbatim>\<open>Exception\<close> escape (carried here by its description
  \<^verbatim>\<open>str(e)\<close>), or never returns because it waits for something that never happens.
\<close>

datatype 'a outcome = Returns 'a | Raises string | Blocks

subsection \<open>AgentTask\<close>

record agent_task =
  agent_id :: string
  prompt :: string
  name :: string
  status :: string
  result :: string
  started_at :: "string option"
  ended_at :: "string option"
  error :: "string option"

text \<open>\<^verbatim>\<open>AgentTask.__init__\<close>; \<^verbatim>\<open>name or f"Agent-{agent_id[:4]}"\<close> picks the default label
  when the given name is empty.\<close>

definition AgentTask :: "string \<Rightarrow> string \<Rightarrow> string \<Rightarrow> agent_task" where
  "AgentTask aid p nm =
     \<lparr>agent_id = aid, prompt = p,
      name = (if nm \<noteq> [] then nm else ''Agent-'' @ take 4 aid),
      status = ''pending'', result = [], started_at = None, ended_at = None,
      error = None\<rparr>"

text \<open>
  What \<^verbatim>\<open>subprocess.Popen(["claude", prompt], ...)\<close> followed by
  \<^verbatim>\<open>process.communicate()\<close> does: the command exits with a return code and the two captured
  texts, or one of the two calls raises (the command cannot be launched, its output cannot
  be decoded), or the command never terminates (there is no timeout).
\<close>

datatype command_outcome =
    Exited int string string
  | Raised string
  | Hangs

text \<open>
  The surroundings of one call of \<^verbatim>\<open>execute\<close>: the two readings of
  \<^verbatim>\<open>datetime.now().isoformat()\<close>, the value of \<^verbatim>\<open>random.uniform(2, 5)\<close> and the external
  command, as a function of its sole argument.
\<close>

record exec_env =
  now_started :: string
  sleep_time :: real
  claude :: "string \<Rightarrow> command_outcome"
  now_ended :: string

definition mock_result :: "agent_task \<Rightarrow> string" where
  "mock_result t =
     ''MOCK RESULT for '' @ name t @ '': Analyzed '' @ take 30 (prompt t)
       @ ''... found 3 issues.''"

text \<open>The first two assignments of \<^verbatim>\<open>execute\<close>, before the \<^verbatim>\<open>try\<close>.\<close>

definition execute_begin :: "exec_env \<Rightarrow> agent_task \<Rightarrow> agent_task" where
  "execute_begin env t = t\<lparr>status := ''running'', started_at := Some (now_started env)\<rparr>"

text \<open>
  The body of the \<^verbatim>\<open>try\<close> block. The sleep of the mock branch takes time and changes
  nothing. In the real branch an exception can only come from launching the command or
  from waiting for it, both before the first assignment of the branch.
\<close>

definition execute_try :: "exec_env \<Rightarrow> bool \<Rightarrow> agent_task \<Rightarrow> agent_task outcome" where
  "execute_try env test_mode t =
     (if test_mode then
        Returns (t\<lparr>result := mock_result t, status := ''completed''\<rparr>)
      else
        (case claude env (prompt t) of
           Hangs \<Rightarrow> Blocks
         | Raised e \<Rightarrow> Raises e
         | Exited returncode stdout stderr \<Rightarrow>
             (let t' = t\<lparr>result := stdout\<rparr> in
              if returncode \<noteq> 0 then
                Returns (t'\<lparr>status := ''failed'', error := Some stderr\<rparr>)
              else
                Returns (t'\<lparr>status := ''completed''\<rparr>))))"

text \<open>The \<^verbatim>\<open>try\<close> with its \<^verbatim>\<open>except Exception\<close> handler, then the last two lines.\<close>

definition execute_rest :: "exec_env \<Rightarrow> bool \<Rightarrow> agent_task \<Rightarrow> agent_task outcome" where
  "execute_rest env test_mode t =
     (case execute_try env test_mode t of
        Blocks \<Rightarrow> Blocks
      | Raises e \<Rightarrow>
          Returns (t\<lparr>status := ''failed'', error := Some e,
                     ended_at := Some (now_ended env)\<rparr>)
      | Returns t' \<Rightarrow> Returns (t'\<lparr>ended_at := Some (now_ended env)\<rparr>))"

definition execute :: "exec_env \<Rightarrow> bool \<Rightarrow> agent_task \<Rightarrow> agent_task outcome" where
  "execute env test_mode t = execute_rest env test_mode (execute_begin env t)"

subsection \<open>execute, assignment by assignment\<close>

text \<open>
  Other threads see a task between the assignments of \<^verbatim>\<open>execute\<close>. The assignments of
  one call, in the order the code makes them, and whether the call returns after them: a
  command that never terminates leaves the call waiting after the first two.
\<close>

datatype assignment =
    SetStatus string
  | SetStartedAt string
  | SetResult string
  | SetError string
  | SetEndedAt string

fun assign :: "assignment \<Rightarrow> agent_task \<Rightarrow> agent_task" where
  "assign (SetStatus s) t = t\<lparr>status := s\<rparr>"
| "assign (SetStartedAt s) t = t\<lparr>started_at := Some s\<rparr>"
| "assign (SetResult s) t = t\<lparr>result := s\<rparr>"
| "assign (SetError s) t = t\<lparr>error := Some s\<rparr>"
| "assign (SetEndedAt s) t = t\<lparr>ended_at := Some s\<rparr>"

definition execute_assignments :: "exec_env \<Rightarrow> bool \<Rightarrow> agent_task \<Rightarrow> assignment list \<times> bool" where
  "execute_assignments env test_mode t =
     (let opening = [SetStatus ''running'', SetStartedAt (now_started env)];
          closing = [SetEndedAt (now_ended env)]
      in if test_mode then
           (opening @ [SetResult (mock_result t), SetStatus ''completed''] @ closing, True)
         else
           (case claude env (prompt t) of
              Hangs \<Rightarrow> (opening, False)
            | Raised e \<Rightarrow> (opening @ [SetStatus ''failed'', SetError e] @ closing, True)
            | Exited returncode stdout stderr \<Rightarrow>
                if returncode \<noteq> 0 then
                  (opening @ [SetResult stdout, SetStatus ''failed'', SetError stderr] @ closing,
                   True)
                else
                  (opening @ [SetResult stdout, SetStatus ''completed''] @ closing, True)))"

subsection \<open>Orchestrator: construction and task derivation\<close>

record orchestrator =
  main_prompt :: string
  agent_count :: int
  test_mode :: bool
  session_id :: string
  tasks :: "agent_task list"

text \<open>\<^verbatim>\<open>Orchestrator.__init__\<close>; the first argument is the value of
  \<^verbatim>\<open>str(uuid.uuid4())\<close> drawn there.\<close>

definition Orchestrator :: "string \<Rightarrow> string \<Rightarrow> int \<Rightarrow> bool \<Rightarrow> orchestrator" where
  "Orchestrator sid p n m =
     \<lparr>main_prompt = p, agent_count = n, test_mode = m, session_id = sid, tasks = []\<rparr>"

record role =
  perspective :: string
  agent :: string
  skills :: string

definition agent_map :: "role list" where
  "agent_map =
     [\<lparr>perspective = ''Architecture & Security'', agent = ''security-auditor'',
       skills = ''security-checklist, api-patterns''\<rparr>,
      \<lparr>perspective = ''Backend Implementation'', agent = ''backend-specialist'',
       skills = ''nodejs-best-practices, api-patterns''\<rparr>,
      \<lparr>perspective = ''Frontend & UI/UX'', agent = ''frontend-specialist'',
       skills = ''react-patterns, tailwind-patterns''\<rparr>,
      \<lparr>perspective = ''Testing'', agent = ''test-engineer'',
       skills = ''testing-patterns, webapp-testing''\<rparr>,
      \<lparr>perspective = ''DevOps & Performance'', agent = ''devops-engineer'',
       skills = ''deployment-procedures, server-management''\<rparr>]"

text \<open>
  One round of the loop of \<^verbatim>\<open>initialize_tasks\<close>. The parameter \<open>uuid4\<close> gives the
  identifier drawn in round \<open>i\<close>.
\<close>

definition derive_task :: "(nat \<Rightarrow> string) \<Rightarrow> nat \<Rightarrow> orchestrator \<Rightarrow> orchestrator" where
  "derive_task uuid4 i self =
     (let map_item = agent_map ! (i mod length agent_map);
          perspective = perspective map_item;
          agent_name = agent map_item;
          skills = skills map_item;
          sub_prompt = ''Use the '' @ agent_name @ '' agent with '' @ skills
            @ '' skills to focus on '' @ perspective @ '': '' @ main_prompt self;
          task = AgentTask (uuid4 i) sub_prompt agent_name
      in self\<lparr>tasks := tasks self @ [task]\<rparr>)"

text \<open>\<^verbatim>\<open>for i in range(self.agent_count)\<close>: no round when the count is zero or negative.\<close>

definition initialize_tasks :: "(nat \<Rightarrow> string) \<Rightarrow> orchestrator \<Rightarrow> orchestrator" where
  "initialize_tasks uuid4 self = fold (derive_task uuid4) [0..<nat (agent_count self)] self"

subsection \<open>Storage, the state snapshot and the report\<close>

text \<open>
  The dictionary that \<^verbatim>\<open>save_state\<close> hands to \<^verbatim>\<open>json.dumps\<close>, as a JSON value: an object
  is the list of its keys and values in the order of the dictionary.
\<close>

datatype json = JNull | JString string | JArray "json list" | JObject "(string \<times> json) list"

definition json_opt :: "string option \<Rightarrow> json" where
  "json_opt v = (case v of None \<Rightarrow> JNull | Some s \<Rightarrow> JString s)"

text \<open>
  A path is the list of its components. What the program writes under the home directory:
  \<open>state_writes\<close> are the successive contents of the one file
  \<^verbatim>\<open>ORCHESTRATOR_STATE_FILE\<close>, oldest first (each write replaces the file, which holds the
  last); \<open>report_writes\<close> are the report files written, each with its path.
\<close>

type_synonym path = "string list"

record storage =
  state_writes :: "json list"
  report_writes :: "(path \<times> string) list"

text \<open>A method takes \<^verbatim>\<open>self\<close> and the storage and returns both.\<close>

definition save_state :: "string \<Rightarrow> orchestrator \<Rightarrow> storage \<Rightarrow> orchestrator \<times> storage" where
  "save_state now self fs =
     (let state = JObject
        [(''session_id'', JString (session_id self)),
         (''timestamp'', JString now),
         (''main_prompt'', JString (main_prompt self)),
         (''tasks'', JArray (map (\<lambda>t. JObject
            [(''id'', JString (agent_id t)),
             (''name'', JString (name t)),
             (''status'', JString (status t)),
             (''started_at'', json_opt (started_at t)),
             (''ended_at'', json_opt (ended_at t)),
             (''result_snippet'', JString (if result t \<noteq> [] then take 200 (result t) else []))])
            (tasks self)))]
      in (self, fs\<lparr>state_writes := state_writes fs @ [state]\<rparr>))"

abbreviation NL :: string where
  "NL \<equiv> [CHR 0x0A]"

definition DATA_DIR :: "path \<Rightarrow> path" where
  "DATA_DIR home_dir = home_dir @ [''.claude''] @ [''data'']"

text \<open>
  \<^verbatim>\<open>reports_dir / f"synthesis_report_{self.session_id[:8]}.md"\<close>: one more component, as
  for every file name without a separator (a session identifier has none).
\<close>

definition report_file :: "path \<Rightarrow> string \<Rightarrow> path" where
  "report_file home_dir sid =
     (let reports_dir = DATA_DIR home_dir @ [''reports'']
      in reports_dir @ [''synthesis_report_'' @ take 8 sid @ ''.md''])"

text \<open>One round of the loop of \<^verbatim>\<open>synthesize\<close>: five additions to the text so far.\<close>

definition synthesize_task :: "string \<Rightarrow> agent_task \<Rightarrow> string" where
  "synthesize_task synthesis_content t =
     (let c1 = synthesis_content @ ''### '' @ name t @ NL;
          c2 = c1 @ ''- **Task**: '' @ take 100 (prompt t) @ ''...'' @ NL;
          c3 = c2 @ ''- **Status**: '' @ status t @ NL;
          c4 = c3 @ ''- **Key Findings**:'' @ NL @ NL
                 @ (if result t \<noteq> [] then result t else ''No output generated.'') @ NL @ NL;
          c5 = c4 @ ''---'' @ NL @ NL
      in c5)"

definition synthesize :: "path \<Rightarrow> orchestrator \<Rightarrow> storage \<Rightarrow> orchestrator \<times> storage" where
  "synthesize home_dir self fs =
     (let c1 = ''# Parallel Agents Synthesis Report'' @ NL;
          c2 = c1 @ ''**Session ID**: '' @ session_id self @ NL;
          c3 = c2 @ ''**Main Objective**: '' @ main_prompt self @ NL @ NL;
          c4 = c3 @ ''---'' @ NL @ NL;
          synthesis_content = foldl synthesize_task c4 (tasks self)
      in (self, fs\<lparr>report_writes := report_writes fs
            @ [(report_file home_dir (session_id self), synthesis_content)]\<rparr>))"

text \<open>
  The text of \<^verbatim>\<open>str(uuid.uuid4())\<close>: 32 lower-case hexadecimal digits in groups of
  8-4-4-4-12, with the version digit 4 and a variant digit among 8, 9, a, b.
\<close>

definition uuid4_text :: "string \<Rightarrow> bool" where
  "uuid4_text s =
     (map (\<lambda>c. if c \<in> set ''0123456789abcdef'' then CHR ''0'' else c) s
        = ''00000000-0000-0000-0000-000000000000'' \<and>
      s ! 14 = CHR ''4'' \<and> s ! 19 \<in> set ''89ab'')"

subsection \<open>The execution pool and Orchestrator.run\<close>

text \<open>
  \<^verbatim>\<open>run\<close> submits \<^verbatim>\<open>task.execute\<close> once per task to a \<^verbatim>\<open>ThreadPoolExecutor\<close> with as
  many workers as the agent count, so every task has a thread of its own, and the main
  thread takes the futures from \<^verbatim>\<open>as_completed\<close>, saving the state after each. The
  interleaving is a parameter: a schedule names, step by step, the thread that runs next,
  and a step is one access to an attribute of a task.

  Worker \<open>i\<close> makes the assignments of \<^verbatim>\<open>execute\<close> to task \<open>i\<close> one at a time, and after
  the last one a step in which the call returns and its future is finished; a worker
  whose command never terminates stops after the first two assignments. Each worker
  writes the fields of its own task only.

  The main thread waits until a finished future can be taken from \<^verbatim>\<open>as_completed\<close>. Taking
  it starts the loop body with its \<^verbatim>\<open>save_state\<close>, where the clock is read. The list
  comprehension then reads the tasks in order, and of each task \<^verbatim>\<open>agent_id\<close>, \<^verbatim>\<open>name\<close>,
  \<^verbatim>\<open>status\<close>, \<^verbatim>\<open>started_at\<close>, \<^verbatim>\<open>ended_at\<close> and \<^verbatim>\<open>result\<close> for its truth value, one
  step per read; a further step completes the entry, reading \<^verbatim>\<open>result\<close> again for the
  slice when it was not empty. When all tasks are read, a last step writes the record
  (the session id and the objective, which nothing assigns after construction, are taken
  there).
\<close>

datatype thread = Worker nat | Main

text \<open>A future is running with the number of assignments its call has made, or finished.\<close>

datatype future = Running nat | Finished

text \<open>
  The main thread waits, or is inside \<^verbatim>\<open>save_state\<close> with the clock reading, the entries
  of the tasks read so far, the values read of the task at hand, and the truth value of
  its result once that is read.
\<close>

datatype main_pc = Waiting | Saving string "json list" "json list" "bool option"

record pool =
  pool_self :: orchestrator
  futures :: "future list"
  main_pc :: main_pc
  yielded :: nat
  pool_fs :: storage

text \<open>
  The surroundings of one run: the home directory, the identifiers drawn in
  \<^verbatim>\<open>initialize_tasks\<close>, what each worker meets in its \<^verbatim>\<open>execute\<close>, and the clock reading of
  each call of \<^verbatim>\<open>save_state\<close>, counted from 0.
\<close>

record run_env =
  home :: path
  task_uuid4 :: "nat \<Rightarrow> string"
  worker_env :: "nat \<Rightarrow> exec_env"
  save_clock :: "nat \<Rightarrow> string"

definition set_task :: "nat \<Rightarrow> agent_task \<Rightarrow> orchestrator \<Rightarrow> orchestrator" where
  "set_task i t self = self\<lparr>tasks := (tasks self)[i := t]\<rparr>"

definition worker_step :: "run_env \<Rightarrow> nat \<Rightarrow> pool \<Rightarrow> pool" where
  "worker_step env i p =
     (if i < length (futures p) then
        (case futures p ! i of
           Finished \<Rightarrow> p
         | Running k \<Rightarrow>
             (let t = tasks (pool_self p) ! i;
                  (assignments, returns) =
                    execute_assignments (worker_env env i) (test_mode (pool_self p)) t
              in if k < length assignments then
                   p\<lparr>pool_self := set_task i (assign (assignments ! k) t) (pool_self p),
                     futures := (futures p)[i := Running (Suc k)]\<rparr>
                 else if returns then p\<lparr>futures := (futures p)[i := Finished]\<rparr>
                 else p))
      else p)"

text \<open>The first five values of an entry, in the order of the dictionary.\<close>

definition read_value :: "nat \<Rightarrow> agent_task \<Rightarrow> json" where
  "read_value k t =
     [JString (agent_id t), JString (name t), JString (status t),
      json_opt (started_at t), json_opt (ended_at t)] ! k"

definition make_entry :: "json list \<Rightarrow> string \<Rightarrow> json" where
  "make_entry vals snippet =
     JObject [(''id'', vals ! 0), (''name'', vals ! 1), (''status'', vals ! 2),
              (''started_at'', vals ! 3), (''ended_at'', vals ! 4),
              (''result_snippet'', JString snippet)]"

definition main_step :: "run_env \<Rightarrow> pool \<Rightarrow> pool" where
  "main_step env p =
     (case main_pc p of
        Waiting \<Rightarrow>
          if yielded p < length (filter (\<lambda>f. f = Finished) (futures p)) then
            p\<lparr>main_pc := Saving (save_clock env (Suc (yielded p))) [] [] None\<rparr>
          else p
      | Saving now entries vals truthy \<Rightarrow>
          if length entries < length (tasks (pool_self p)) then
            (let t = tasks (pool_self p) ! length entries in
             if length vals < 5 then
               p\<lparr>main_pc := Saving now entries (vals @ [read_value (length vals) t]) None\<rparr>
             else
               (case truthy of
                  None \<Rightarrow> p\<lparr>main_pc := Saving now entries vals (Some (result t \<noteq> []))\<rparr>
                | Some True \<Rightarrow>
                    p\<lparr>main_pc :=
                        Saving now (entries @ [make_entry vals (take 200 (result t))]) [] None\<rparr>
                | Some False \<Rightarrow>
                    p\<lparr>main_pc := Saving now (entries @ [make_entry vals []]) [] None\<rparr>))
          else
            p\<lparr>main_pc := Waiting, yielded := Suc (yielded p),
              pool_fs := (pool_fs p)\<lparr>state_writes := state_writes (pool_fs p) @
                [JObject [(''session_id'', JString (session_id (pool_self p))),
                          (''timestamp'', JString now),
                          (''main_prompt'', JString (main_prompt (pool_self p))),
                          (''tasks'', JArray entries)]]\<rparr>\<rparr>)"

fun pool_step :: "run_env \<Rightarrow> thread \<Rightarrow> pool \<Rightarrow> pool" where
  "pool_step env (Worker i) p = worker_step env i p"
| "pool_step env Main p = main_step env p"

text \<open>
  \<^verbatim>\<open>Orchestrator.run\<close>. The first \<^verbatim>\<open>save_state\<close> runs before any worker exists.
  \<^verbatim>\<open>ThreadPoolExecutor(max_workers=n)\<close> raises
  \<^verbatim>\<open>ValueError("max_workers must be greater than 0")\<close> for \<open>n \<le> 0\<close>, and nothing in \<^verbatim>\<open>run\<close>
  catches it. The loop over \<^verbatim>\<open>as_completed\<close> ends when every future has been taken and
  the state saved after it; a schedule that does not get there shows a run that has not
  returned (yet, or ever). The result is how the call ended, with \<^verbatim>\<open>self\<close> and the storage
  as they are then.
\<close>

definition run ::
  "run_env \<Rightarrow> thread list \<Rightarrow> orchestrator \<Rightarrow> storage \<Rightarrow> unit outcome \<times> orchestrator \<times> storage" where
  "run env schedule self fs =
     (let self1 = initialize_tasks (task_uuid4 env) self;
          (self2, fs2) = save_state (save_clock env 0) self1 fs
      in if agent_count self2 \<le> 0 then
           (Raises ''max_workers must be greater than 0'', self2, fs2)
         else
           (let p = fold (pool_step env) schedule
                      \<lparr>pool_self = self2, futures = map (\<lambda>_. Running 0) (tasks self2),
                       main_pc = Waiting, yielded = 0, pool_fs = fs2\<rparr>
            in if yielded p < length (futures p) then (Blocks, pool_self p, pool_fs p)
               else
                 (case synthesize (home env) (pool_self p) (pool_fs p) of
                    (self3, fs3) \<Rightarrow> (Returns (), self3, fs3))))"

subsection \<open>Reading a snapshot\<close>

text \<open>The number of tasks that a written state record shows as completed or failed.\<close>

fun json_field :: "string \<Rightarrow> json \<Rightarrow> json option" where
  "json_field k (JObject kvs) = map_of kvs k"
| "json_field k _ = None"

definition terminal_count :: "json \<Rightarrow> nat" where
  "terminal_count state =
     (case json_field ''tasks'' state of
        Some (JArray entries) \<Rightarrow>
          length (filter (\<lambda>e. json_field ''status'' e = Some (JString ''completed'') \<or>
                              json_field ''status'' e = Some (JString ''failed'')) entries)
      | _ \<Rightarrow> 0)"

subsection \<open>Terminal tasks and the invariants of the pool\<close>

definition terminal :: "agent_task \<Rightarrow> bool" where
  "terminal t = (status t = ''completed'' \<or> status t = ''failed'')"

text \<open>An assignment to \<^verbatim>\<open>status\<close>.\<close>

definition status_write :: "assignment \<Rightarrow> bool" where
  "status_write w = (case w of SetStatus s \<Rightarrow> True | _ \<Rightarrow> False)"

text \<open>What a snapshot shows: its entries, and whether an entry (or the value read for its
  status) is terminal.\<close>

definition value_terminal :: "json \<Rightarrow> bool" where
  "value_terminal v = (v = JString ''completed'' \<or> v = JString ''failed'')"

definition entry_terminal :: "json \<Rightarrow> bool" where
  "entry_terminal e = (case json_field ''status'' e of Some v \<Rightarrow> value_terminal v | None \<Rightarrow> False)"

definition snapshot_entries :: "json \<Rightarrow> json list" where
  "snapshot_entries state =
     (case json_field ''tasks'' state of Some (JArray entries) \<Rightarrow> entries | _ \<Rightarrow> [])"

text \<open>The entry of a task as \<^verbatim>\<open>save_state\<close> builds it.\<close>

definition task_entry :: "agent_task \<Rightarrow> json" where
  "task_entry t = JObject
     [(''id'', JString (agent_id t)),
      (''name'', JString (name t)),
      (''status'', JString (status t)),
      (''started_at'', json_opt (started_at t)),
      (''ended_at'', json_opt (ended_at t)),
      (''result_snippet'', JString (if result t \<noteq> [] then take 200 (result t) else []))]"

text \<open>
  Once a task shows a terminal status, what is left of its \<^verbatim>\<open>execute\<close> assigns no status.
\<close>

definition steady :: "run_env \<Rightarrow> pool \<Rightarrow> bool" where
  "steady env p =
     (length (futures p) = length (tasks (pool_self p)) \<and>
      (\<forall>i<length (futures p). \<forall>k. futures p ! i = Running k \<longrightarrow>
         terminal (tasks (pool_self p) ! i) \<longrightarrow>
         (\<forall>j\<ge>k. j < length (fst (execute_assignments (worker_env env i)
                 (test_mode (pool_self p)) (tasks (pool_self p) ! i))) \<longrightarrow>
            \<not> status_write (fst (execute_assignments (worker_env env i)
                 (test_mode (pool_self p)) (tasks (pool_self p) ! i)) ! j))))"

text \<open>
  The snapshots written since the storage held \<open>k0\<close> of them are ordered by their terminal
  counts. A task that the last of them shows as terminal is terminal now; and in a
  \<^verbatim>\<open>save_state\<close> under way, a status that was read is terminal if the last snapshot shows
  that task as terminal, and the task is terminal now if the status read was.
\<close>

definition faithful :: "nat \<Rightarrow> pool \<Rightarrow> bool" where
  "faithful k0 p =
     (let written = state_writes (pool_fs p);
          prev = snapshot_entries (last written);
          ts = tasks (pool_self p)
      in k0 < length written \<and>
         sorted (map terminal_count (drop k0 written)) \<and>
         (\<forall>c \<in> set (map terminal_count (drop k0 written)). c \<le> terminal_count (last written)) \<and>
         length prev = length ts \<and>
         (\<forall>j<length ts. entry_terminal (prev ! j) \<longrightarrow> terminal (ts ! j)) \<and>
         (case main_pc p of
            Waiting \<Rightarrow> True
          | Saving now entries vals truthy \<Rightarrow>
              length entries \<le> length ts \<and>
              (\<forall>j<length entries.
                 (entry_terminal (prev ! j) \<longrightarrow> entry_terminal (entries ! j)) \<and>
                 (entry_terminal (entries ! j) \<longrightarrow> terminal (ts ! j))) \<and>
              length vals \<le> 5 \<and>
              (truthy \<noteq> None \<longrightarrow> length vals = 5) \<and>
              (vals \<noteq> [] \<longrightarrow> length entries < length ts) \<and>
              (2 < length vals \<longrightarrow>
                 (entry_terminal (prev ! length entries) \<longrightarrow> value_terminal (vals ! 2)) \<and>
                 (value_terminal (vals ! 2) \<longrightarrow> terminal (ts ! length entries)))))"

text \<open>
  Where the pool stands with respect to the tasks \<open>self0\<close> had when they were submitted: the
  task of a running future is the submitted one after the assignments made so far, and the
  task of a finished one is what \<^verbatim>\<open>execute\<close> returned. Nothing but the tasks of \<^verbatim>\<open>self\<close>
  has changed, no more futures have been taken than are finished, and no report has been
  written.
\<close>

definition tracks :: "run_env \<Rightarrow> orchestrator \<Rightarrow> storage \<Rightarrow> pool \<Rightarrow> bool" where
  "tracks env self0 fs0 p =
     (main_prompt (pool_self p) = main_prompt self0 \<and>
      agent_count (pool_self p) = agent_count self0 \<and>
      test_mode (pool_self p) = test_mode self0 \<and>
      session_id (pool_self p) = session_id self0 \<and>
      length (futures p) = length (tasks self0) \<and>
      length (tasks (pool_self p)) = length (tasks self0) \<and>
      (\<forall>i<length (tasks self0).
         (\<forall>k. futures p ! i = Running k \<longrightarrow>
            k \<le> length (fst (execute_assignments (worker_env env i) (test_mode self0)
                                (tasks self0 ! i))) \<and>
            tasks (pool_self p) ! i =
              fold assign (take k (fst (execute_assignments (worker_env env i) (test_mode self0)
                                          (tasks self0 ! i)))) (tasks self0 ! i)) \<and>
         (futures p ! i = Finished \<longrightarrow>
            execute (worker_env env i) (test_mode self0) (tasks self0 ! i)
              = Returns (tasks (pool_self p) ! i))) \<and>
      yielded p \<le> length (filter (\<lambda>f. f = Finished) (futures p)) \<and>
      (main_pc p \<noteq> Waiting \<longrightarrow> yielded p < length (filter (\<lambda>f. f = Finished) (futures p))) \<and>
      report_writes (pool_fs p) = report_writes fs0)"

subsection \<open>Concrete inputs\<close>

definition sample_task :: agent_task where
  "sample_task = AgentTask ''0b4e2c1a-7f3d-4a6b-9c58-1d2e3f4a5b6c'' ''Summarise the changelog'' []"

definition env_missing_command :: exec_env where
  "env_missing_command =
     \<lparr>now_started = ''2025-01-01T10:00:00.000001'', sleep_time = 3,
      claude = (\<lambda>_. Raised ''[Errno 2] No such file or directory: 'claude' ''),
      now_ended = ''2025-01-01T10:00:00.000950''\<rparr>"

definition env_silent_failure :: exec_env where
  "env_silent_failure =
     \<lparr>now_started = ''2025-01-01T10:00:00.000001'', sleep_time = 2,
      claude = (\<lambda>_. Exited 1 [] []),
      now_ended = ''2025-01-01T10:00:04.120000''\<rparr>"

definition env_not_found :: exec_env where
  "env_not_found =
     \<lparr>now_started = ''2025-01-01T10:00:00.000001'', sleep_time = 5,
      claude = (\<lambda>_. Exited 1 ''partial'' ''not found''),
      now_ended = ''2025-01-01T10:00:02.500000''\<rparr>"

definition sample_uuid4 :: "nat \<Rightarrow> string" where
  "sample_uuid4 i =
     ''0b4e2c1a-7f3d-4a6b-9c58-1d2e3f4a5b6'' @ [''0123456789abcdef'' ! (i mod 16)]"

definition empty_storage :: storage where
  "empty_storage = \<lparr>state_writes = [], report_writes = []\<rparr>"

definition sample_failed_task :: agent_task where
  "sample_failed_task =
     sample_task\<lparr>status := ''failed'', result := replicate 250 (CHR ''x''),
       started_at := Some ''2025-01-01T10:00:00.000001'',
       ended_at := Some ''2025-01-01T10:00:02.500000'', error := Some ''not found''\<rparr>"

definition sample_raised_task :: agent_task where
  "sample_raised_task =
     (AgentTask ''7d1c0e55-2b9a-4f08-b3e6-0a9c4d7e1f23'' ''List the open issues'' ''test-engineer'')
       \<lparr>status := ''failed'', started_at := Some ''2025-01-01T10:00:00.000002'',
        ended_at := Some ''2025-01-01T10:00:00.000950'',
        error := Some ''[Errno 2] No such file or directory: 'claude' ''\<rparr>"

definition session_a :: string where
  "session_a = ''3f2a9c1e-58b7-4d60-a1c3-9e4b7f205d11''"

definition session_b :: string where
  "session_b = ''3f2a9c1e-0c94-4e2f-8b6a-5d1730c8e9a2''"

definition session_c :: string where
  "session_c = ''c81d4e2f-0c94-4e2f-8b6a-5d1730c8e9a2''"

definition sample_session :: orchestrator where
  "sample_session =
     (Orchestrator session_a ''Ship it'' 2 False)\<lparr>tasks := [sample_failed_task, sample_raised_task]\<rparr>"

definition sample_home :: path where
  "sample_home = [''/'', ''home'', ''dev'']"

definition sample_run_env :: run_env where
  "sample_run_env =
     \<lparr>home = sample_home,
      task_uuid4 = sample_uuid4,
      worker_env = (\<lambda>i. if i = 0 then env_not_found else env_silent_failure),
      save_clock = (\<lambda>k. ''2025-01-01T10:00:0'' @ [''0123456789'' ! (k mod 10)] @ ''.000000'')\<rparr>"

text \<open>
  A schedule for two mock tasks: worker 0 runs to its end and worker 1 makes its first two
  assignments; the main thread takes the finished future and reads task 0 and the
  identity of task 1; worker 1 assigns its result and its status; the main thread reads
  the rest of task 1 and writes the snapshot; worker 1 assigns \<^verbatim>\<open>ended_at\<close> and returns;
  the main thread takes its future and saves again.
\<close>

definition sample_schedule :: "thread list" where
  "sample_schedule =
     replicate 6 (Worker 0) @ [Worker 1, Worker 1] @ replicate 9 Main @ [Worker 1, Worker 1]
       @ replicate 7 Main @ [Worker 1, Worker 1] @ replicate 16 Main"

definition colliding_uuid4 :: "nat \<Rightarrow> string" where
  "colliding_uuid4 i = ''0b4e2c1a-7f3d-4a6b-9c58-1d2e3f4a5b6c''"


section \<open>Properties of AgentTask.execute\<close>

lemma execute_try_mock:
  "execute_try env True t = Returns (t\<lparr>result := mock_result t, status := ''completed''\<rparr>)"
  by (simp add: execute_try_def)

lemma execute_mock:
  "execute env True t =
     Returns (t\<lparr>status := ''completed'', started_at := Some (now_started env),
                result := mock_result t, ended_at := Some (now_ended env)\<rparr>)"
  by (simp add: execute_def execute_rest_def execute_begin_def execute_try_def mock_result_def)

lemma execute_real_exited:
  assumes "claude env (prompt t) = Exited rc out err"
  shows "execute env False t =
     Returns (if rc \<noteq> 0
        then t\<lparr>status := ''failed'', started_at := Some (now_started env), result := out,
               error := Some err, ended_at := Some (now_ended env)\<rparr>
        else t\<lparr>status := ''completed'', started_at := Some (now_started env), result := out,
               ended_at := Some (now_ended env)\<rparr>)"
  using assms
  by (simp add: execute_def execute_rest_def execute_begin_def execute_try_def)

lemma execute_real_raised:
  assumes "claude env (prompt t) = Raised msg"
  shows "execute env False t =
     Returns (t\<lparr>status := ''failed'', started_at := Some (now_started env),
                error := Some msg, ended_at := Some (now_ended env)\<rparr>)"
  using assms
  by (simp add: execute_def execute_rest_def execute_begin_def execute_try_def)

lemma execute_real_hangs:
  assumes "claude env (prompt t) = Hangs"
  shows "execute env False t = Blocks"
  using assms
  by (simp add: execute_def execute_rest_def execute_begin_def execute_try_def)

text \<open>
  Claim C1. In either mode \<^verbatim>\<open>execute\<close> lets no exception escape; it returns unless the
  external command of the real mode never terminates; an exception of the invocation ends
  as status \<^verbatim>\<open>failed\<close> with the exception's description in \<^verbatim>\<open>error\<close>; and whenever it
  returns, the status is \<^verbatim>\<open>completed\<close> or \<^verbatim>\<open>failed\<close>, \<^verbatim>\<open>ended_at\<close> is set, and what is
  returned is the task that was called (same identity, label and instruction).
\<close>

theorem execute_never_raises:
  "(\<forall>e. execute env mock t \<noteq> Raises e) \<and>
   (mock \<or> claude env (prompt t) \<noteq> Hangs \<longrightarrow> (\<exists>t'. execute env mock t = Returns t')) \<and>
   (\<forall>msg. \<not> mock \<and> claude env (prompt t) = Raised msg \<longrightarrow>
      (\<exists>t'. execute env mock t = Returns t' \<and> status t' = ''failed'' \<and> error t' = Some msg)) \<and>
   (\<forall>t'. execute env mock t = Returns t' \<longrightarrow>
      (status t' = ''completed'' \<or> status t' = ''failed'') \<and>
      ended_at t' = Some (now_ended env) \<and>
      agent_id t' = agent_id t \<and> name t' = name t \<and> prompt t' = prompt t)"
proof (cases mock)
  case True
  then show ?thesis by (simp add: execute_mock)
next
  case False
  show ?thesis
  proof (cases "claude env (prompt t)")
    case (Exited rc out err)
    with False show ?thesis by (auto simp: execute_real_exited)
  next
    case (Raised msg)
    with False show ?thesis by (auto simp: execute_real_raised)
  next
    case Hangs
    with False show ?thesis by (simp add: execute_real_hangs)
  qed
qed

theorem execute_never_raises_witness:
  "execute env_missing_command False sample_task =
     Returns (sample_task\<lparr>status := ''failed'',
        started_at := Some ''2025-01-01T10:00:00.000001'',
        error := Some ''[Errno 2] No such file or directory: 'claude' '',
        ended_at := Some ''2025-01-01T10:00:00.000950''\<rparr>)"
proof -
  have r: "claude env_missing_command (prompt sample_task)
      = Raised ''[Errno 2] No such file or directory: 'claude' ''"
    by (simp add: env_missing_command_def)
  from execute_never_raises [of env_missing_command False sample_task] r
  obtain t' where t': "execute env_missing_command False sample_task = Returns t'"
    by auto
  have "execute env_missing_command False sample_task =
     Returns (sample_task\<lparr>status := ''failed'',
        started_at := Some (now_started env_missing_command),
        error := Some ''[Errno 2] No such file or directory: 'claude' '',
        ended_at := Some (now_ended env_missing_command)\<rparr>)"
    using r by (rule execute_real_raised)
  then show ?thesis using t' by (simp add: env_missing_command_def)
qed

text \<open>
  Claim C2, as the code has it. In the real mode, when the command has exited and its
  output has been captured, the result is the captured stdout; exit status 0 gives status
  \<^verbatim>\<open>completed\<close> and leaves \<^verbatim>\<open>error\<close> alone; any other exit status gives status
  \<^verbatim>\<open>failed\<close> and \<^verbatim>\<open>error\<close> equal to the captured stderr, whatever that is. When
  launching the command or capturing its output raises instead, whatever the exit status
  was, the status is \<^verbatim>\<open>failed\<close>, \<^verbatim>\<open>error\<close> is the description of the exception and the
  result is left as it was. When the command never terminates, neither does the call.
\<close>

theorem execute_real_exit_status:
  "(claude env (prompt t) = Exited rc out err \<longrightarrow>
      (\<exists>t'. execute env False t = Returns t' \<and> result t' = out \<and>
         (if rc = 0 then status t' = ''completed'' \<and> error t' = error t
          else status t' = ''failed'' \<and> error t' = Some err))) \<and>
   (claude env (prompt t) = Raised msg \<longrightarrow>
      (\<exists>t'. execute env False t = Returns t' \<and> result t' = result t \<and>
         status t' = ''failed'' \<and> error t' = Some msg)) \<and>
   (claude env (prompt t) = Hangs \<longrightarrow> execute env False t = Blocks)"
  by (simp add: execute_real_exited execute_real_raised execute_real_hangs)

theorem execute_real_exit_status_witness:
  "(\<exists>t'. execute env_not_found False sample_task = Returns t' \<and> result t' = ''partial'' \<and>
      status t' = ''failed'' \<and> error t' = Some ''not found'') \<and>
   (\<exists>t'. execute env_missing_command False sample_task = Returns t' \<and> result t' = [] \<and>
      status t' = ''failed'' \<and>
      error t' = Some ''[Errno 2] No such file or directory: 'claude' '')"
proof -
  have exited: "claude env_not_found (prompt sample_task) = Exited 1 ''partial'' ''not found''"
    by (simp add: env_not_found_def)
  have raised: "claude env_missing_command (prompt sample_task)
      = Raised ''[Errno 2] No such file or directory: 'claude' ''"
    by (simp add: env_missing_command_def)
  have empty: "result sample_task = []"
    by (simp add: sample_task_def AgentTask_def)
  from execute_real_exit_status [of env_not_found sample_task 1 "''partial''" "''not found''"]
    execute_real_exit_status [of env_missing_command sample_task _ _ _
      "''[Errno 2] No such file or directory: 'claude' ''"]
    exited raised empty
  show ?thesis by simp
qed

text \<open>
  The claim as stated asks for a nonempty \<^verbatim>\<open>error\<close> after every nonzero exit. A command
  that exits with status 1 and writes nothing to stderr leaves the empty text there.
\<close>

theorem execute_nonzero_exit_empty_error_counterexample:
  "execute env_silent_failure False sample_task =
     Returns (sample_task\<lparr>status := ''failed'',
        started_at := Some ''2025-01-01T10:00:00.000001'', result := [],
        error := Some [], ended_at := Some ''2025-01-01T10:00:04.120000''\<rparr>)"
proof -
  have "claude env_silent_failure (prompt sample_task) = Exited 1 [] []"
    by (simp add: env_silent_failure_def)
  from execute_real_exited [OF this] show ?thesis
    by (simp add: env_silent_failure_def)
qed

text \<open>
  Claim C10. In the mock mode the outcome depends on the label and the instruction only:
  two executions of tasks that agree on both, under any two surroundings (clock readings,
  sleep durations, external commands), return with status \<^verbatim>\<open>completed\<close> and the same
  result text.
\<close>

theorem execute_mock_deterministic:
  assumes "name t1 = name t2" and "prompt t1 = prompt t2"
  shows "\<exists>r1 r2. execute env1 True t1 = Returns r1 \<and> execute env2 True t2 = Returns r2 \<and>
     status r1 = ''completed'' \<and> status r2 = ''completed'' \<and> result r1 = result r2"
  using assms by (simp add: execute_mock mock_result_def)

theorem execute_mock_deterministic_witness:
  "\<exists>r1 r2. execute env_silent_failure True sample_task = Returns r1 \<and>
     execute env_not_found True (sample_task\<lparr>agent_id := ''another''\<rparr>) = Returns r2 \<and>
     status r1 = ''completed'' \<and> status r2 = ''completed'' \<and> result r1 = result r2"
  using execute_mock_deterministic
    [of sample_task "sample_task\<lparr>agent_id := ''another''\<rparr>" env_silent_failure env_not_found]
  by simp

text \<open>The assignments of a call, made in order, give what \<^verbatim>\<open>execute\<close> returns.\<close>

lemma execute_assignments_sound:
  "execute env m t =
     (case execute_assignments env m t of
        (ws, returns) \<Rightarrow> if returns then Returns (fold assign ws t) else Blocks)"
  by (simp add: execute_def execute_rest_def execute_begin_def execute_try_def
      execute_assignments_def mock_result_def Let_def split: command_outcome.splits)

lemma name_assign: "name (assign w t) = name t"
  and prompt_assign: "prompt (assign w t) = prompt t"
  and agent_id_assign: "agent_id (assign w t) = agent_id t"
  by (cases w; simp)+

lemma execute_assignments_assign:
  "execute_assignments env m (assign w t) = execute_assignments env m t"
  by (simp add: execute_assignments_def mock_result_def name_assign prompt_assign Let_def)

lemma status_assign: "\<not> status_write w \<Longrightarrow> status (assign w t) = status t"
  by (cases w) (simp_all add: status_write_def)

lemma terminal_status_is_last:
  assumes "execute_assignments env m t = (ws, r)"
    and "ws ! k = SetStatus s" and "s = ''completed'' \<or> s = ''failed''"
    and "k < j" and "j < length ws"
  shows "\<not> status_write (ws ! j)"
  using assms
  by (auto simp: execute_assignments_def Let_def status_write_def nth_Cons' less_Suc_eq
      split: if_splits command_outcome.splits)

section \<open>Properties of task derivation\<close>

lemma length_agent_map: "length agent_map = 5"
  by (simp add: agent_map_def)

lemma agent_map_agent_nonempty: "i < 5 \<Longrightarrow> agent (agent_map ! i) \<noteq> []"
  by (auto simp: agent_map_def less_Suc_eq numeral_eq_Suc nth_Cons')

lemma derive_task_eq:
  "derive_task uuid4 i self =
     self\<lparr>tasks := tasks self @
       [\<lparr>agent_id = uuid4 i,
         prompt = ''Use the '' @ agent (agent_map ! (i mod 5)) @ '' agent with ''
           @ skills (agent_map ! (i mod 5)) @ '' skills to focus on ''
           @ perspective (agent_map ! (i mod 5)) @ '': '' @ main_prompt self,
         name = agent (agent_map ! (i mod 5)),
         status = ''pending'', result = [], started_at = None, ended_at = None,
         error = None\<rparr>]\<rparr>"
  using agent_map_agent_nonempty [of "i mod 5"]
  by (simp add: derive_task_def Let_def AgentTask_def length_agent_map)

text \<open>The loop appends one task per round, in the order of the rounds.\<close>

lemma fold_derive_task:
  "fold (derive_task uuid4) xs self =
     self\<lparr>tasks := tasks self @ map (\<lambda>i. last (tasks (derive_task uuid4 i self))) xs\<rparr>"
proof (induction xs arbitrary: self)
  case Nil
  show ?case by simp
next
  case (Cons x xs)
  show ?case
    by (simp add: Cons.IH) (simp add: derive_task_eq)
qed

lemma initialize_tasks_eq:
  "initialize_tasks uuid4 (Orchestrator sid objective n m) =
     (Orchestrator sid objective n m)\<lparr>tasks :=
        map (\<lambda>i. last (tasks (derive_task uuid4 i (Orchestrator sid objective n m))))
          [0..<nat n]\<rparr>"
  by (simp add: initialize_tasks_def fold_derive_task) (simp add: Orchestrator_def)

text \<open>
  Claim C3, as the code has it. For a freshly constructed orchestrator with any objective
  and any count \<open>n \<ge> 0\<close>, \<^verbatim>\<open>initialize_tasks\<close> leaves exactly \<open>n\<close> tasks, the task at
  position \<open>i\<close> being the one of round \<open>i\<close>: its label is the agent identifier of entry
  \<open>i mod 5\<close> of the five-entry role table, and its instruction is the template filled with
  that entry's agent identifier, skill tags and perspective, followed by the objective.
  Its identity is whatever \<^verbatim>\<open>uuid.uuid4()\<close> returned in round \<open>i\<close>: the identities are
  pairwise distinct exactly when those \<open>n\<close> values are, and nothing in the code compares
  them.
\<close>

theorem initialize_tasks_derivation:
  assumes "0 \<le> n"
  shows "let ts = tasks (initialize_tasks uuid4 (Orchestrator sid objective n m)) in
     int (length ts) = n \<and> length agent_map = 5 \<and>
     map agent_id ts = map uuid4 [0..<nat n] \<and>
     distinct (map agent_id ts) = distinct (map uuid4 [0..<nat n]) \<and>
     (\<forall>i<length ts.
        agent_id (ts ! i) = uuid4 i \<and>
        name (ts ! i) = agent (agent_map ! (i mod 5)) \<and>
        prompt (ts ! i) =
          ''Use the '' @ agent (agent_map ! (i mod 5)) @ '' agent with ''
            @ skills (agent_map ! (i mod 5)) @ '' skills to focus on ''
            @ perspective (agent_map ! (i mod 5)) @ '': '' @ objective \<and>
        status (ts ! i) = ''pending'')"
proof -
  let ?o = "Orchestrator sid objective n m"
  let ?ts = "tasks (initialize_tasks uuid4 ?o)"
  have ts: "?ts = map (\<lambda>i. last (tasks (derive_task uuid4 i ?o))) [0..<nat n]"
    by (simp add: initialize_tasks_eq)
  have len: "int (length ?ts) = n"
    using assms(1) by (simp add: ts)
  have ids: "map agent_id ?ts = map uuid4 [0..<nat n]"
    by (simp add: ts derive_task_eq)
  have slot: "agent_id (?ts ! i) = uuid4 i \<and>
        name (?ts ! i) = agent (agent_map ! (i mod 5)) \<and>
        prompt (?ts ! i) =
          ''Use the '' @ agent (agent_map ! (i mod 5)) @ '' agent with ''
            @ skills (agent_map ! (i mod 5)) @ '' skills to focus on ''
            @ perspective (agent_map ! (i mod 5)) @ '': '' @ objective \<and>
        status (?ts ! i) = ''pending''" if "i < length ?ts" for i
  proof -
    from that have "i < nat n" by (simp add: ts)
    then have "?ts ! i = last (tasks (derive_task uuid4 i ?o))"
      by (simp add: ts)
    then show ?thesis
      by (simp add: derive_task_eq) (simp add: Orchestrator_def)
  qed
  from len ids slot show ?thesis
    by (simp add: Let_def length_agent_map)
qed

lemma sample_uuid4_distinct: "distinct (map sample_uuid4 [0..<nat 7])"
  by (simp add: sample_uuid4_def upt_conv_Cons)

lemma seven_roles:
  "map name (tasks (initialize_tasks sample_uuid4 (Orchestrator ''s'' ''Ship it'' 7 True))) =
     [''security-auditor'', ''backend-specialist'', ''frontend-specialist'', ''test-engineer'',
      ''devops-engineer'', ''security-auditor'', ''backend-specialist'']"
  by code_simp

theorem initialize_tasks_derivation_witness:
  "length (tasks (initialize_tasks sample_uuid4 (Orchestrator ''s'' ''Ship it'' 7 True))) = 7 \<and>
   distinct (map agent_id
     (tasks (initialize_tasks sample_uuid4 (Orchestrator ''s'' ''Ship it'' 7 True)))) \<and>
   map name (tasks (initialize_tasks sample_uuid4 (Orchestrator ''s'' ''Ship it'' 7 True))) =
     [''security-auditor'', ''backend-specialist'', ''frontend-specialist'', ''test-engineer'',
      ''devops-engineer'', ''security-auditor'', ''backend-specialist'']"
proof -
  have "(0::int) \<le> 7" by simp
  from initialize_tasks_derivation [OF this, of sample_uuid4 "''s''" "''Ship it''" True]
    sample_uuid4_distinct
  have "length (tasks (initialize_tasks sample_uuid4 (Orchestrator ''s'' ''Ship it'' 7 True))) = 7 \<and>
     distinct (map agent_id
       (tasks (initialize_tasks sample_uuid4 (Orchestrator ''s'' ''Ship it'' 7 True))))"
    unfolding Let_def by simp
  then show ?thesis using seven_roles by simp
qed

text \<open>
  The claim as stated has the identities pairwise distinct for every run. When
  \<^verbatim>\<open>uuid.uuid4()\<close> returns the same identifier in two rounds, two tasks share it.
\<close>

theorem initialize_tasks_identity_counterexample:
  "uuid4_text (colliding_uuid4 0) \<and> uuid4_text (colliding_uuid4 1) \<and>
   map agent_id (tasks (initialize_tasks colliding_uuid4 (Orchestrator session_a ''Ship it'' 2 True)))
     = [''0b4e2c1a-7f3d-4a6b-9c58-1d2e3f4a5b6c'', ''0b4e2c1a-7f3d-4a6b-9c58-1d2e3f4a5b6c''] \<and>
   \<not> distinct (map agent_id
     (tasks (initialize_tasks colliding_uuid4 (Orchestrator session_a ''Ship it'' 2 True))))"
  by (simp add: initialize_tasks_eq derive_task_eq colliding_uuid4_def uuid4_text_def
      upt_conv_Cons)

section \<open>Properties of the snapshot and the report\<close>


lemma two_tasks: "length xs = 2 \<Longrightarrow> xs = [xs ! 0, xs ! 1]"
  by (cases xs; cases "tl xs") auto



lemma foldl_synthesize_task:
  "foldl synthesize_task acc ts =
     acc @ concat (map (\<lambda>t.
       ''### '' @ name t @ NL
       @ ''- **Task**: '' @ take 100 (prompt t) @ ''...'' @ NL
       @ ''- **Status**: '' @ status t @ NL
       @ ''- **Key Findings**:'' @ NL @ NL
       @ (if result t \<noteq> [] then result t else ''No output generated.'') @ NL @ NL
       @ ''---'' @ NL @ NL) ts)"
  by (induction ts arbitrary: acc) (simp_all add: synthesize_task_def Let_def)

text \<open>
  Claim C9. \<^verbatim>\<open>synthesize\<close> returns \<^verbatim>\<open>self\<close> as it was, so every field of every task is
  what it was before the call; it leaves the state file alone and writes one report: the
  header, then one section per task in the order of the task list, each with the label,
  the first 100 characters of the instruction, the status, and the whole result text, or
  the placeholder \<^verbatim>\<open>No output generated.\<close> when the result is empty.
\<close>

theorem synthesize_frame_and_report:
  "fst (synthesize h self fs) = self \<and>
   state_writes (snd (synthesize h self fs)) = state_writes fs \<and>
   report_writes (snd (synthesize h self fs)) = report_writes fs @
     [(report_file h (session_id self),
       ''# Parallel Agents Synthesis Report'' @ NL
       @ ''**Session ID**: '' @ session_id self @ NL
       @ ''**Main Objective**: '' @ main_prompt self @ NL @ NL
       @ ''---'' @ NL @ NL
       @ concat (map (\<lambda>t.
           ''### '' @ name t @ NL
           @ ''- **Task**: '' @ take 100 (prompt t) @ ''...'' @ NL
           @ ''- **Status**: '' @ status t @ NL
           @ ''- **Key Findings**:'' @ NL @ NL
           @ (if result t \<noteq> [] then result t else ''No output generated.'') @ NL @ NL
           @ ''---'' @ NL @ NL) (tasks self)))]"
  by (simp add: synthesize_def Let_def foldl_synthesize_task)

theorem synthesize_frame_and_report_witness:
  "fst (synthesize sample_home sample_session empty_storage) = sample_session \<and>
   map fst (report_writes (snd (synthesize sample_home sample_session empty_storage))) =
     [[''/'', ''home'', ''dev'', ''.claude'', ''data'', ''reports'', ''synthesis_report_3f2a9c1e.md'']] \<and>
   map snd (report_writes (snd (synthesize sample_home sample_session empty_storage))) =
     [''# Parallel Agents Synthesis Report'' @ NL
      @ ''**Session ID**: 3f2a9c1e-58b7-4d60-a1c3-9e4b7f205d11'' @ NL
      @ ''**Main Objective**: Ship it'' @ NL @ NL
      @ ''---'' @ NL @ NL
      @ ''### Agent-0b4e'' @ NL
      @ ''- **Task**: Summarise the changelog...'' @ NL
      @ ''- **Status**: failed'' @ NL
      @ ''- **Key Findings**:'' @ NL @ NL
      @ replicate 250 (CHR ''x'') @ NL @ NL
      @ ''---'' @ NL @ NL
      @ ''### test-engineer'' @ NL
      @ ''- **Task**: List the open issues...'' @ NL
      @ ''- **Status**: failed'' @ NL
      @ ''- **Key Findings**:'' @ NL @ NL
      @ ''No output generated.'' @ NL @ NL
      @ ''---'' @ NL @ NL]"
  using synthesize_frame_and_report [of sample_home sample_session empty_storage]
  by (simp add: sample_session_def sample_failed_task_def sample_raised_task_def sample_task_def
      AgentTask_def Orchestrator_def session_a_def report_file_def DATA_DIR_def sample_home_def
      empty_storage_def)

text \<open>
  Claim C7, as the code has it. The path of the report that \<^verbatim>\<open>synthesize\<close> writes is a
  function of the first eight characters of the session id: for two sessions whose ids
  are texts of \<^verbatim>\<open>uuid4\<close> (the constructor draws no other), whatever else the sessions
  hold, the reports go to the same file exactly when the session ids agree on their
  first eight characters.
\<close>

theorem report_file_by_prefix:
  assumes "uuid4_text (session_id a)" and "uuid4_text (session_id b)"
  shows "(fst (last (report_writes (snd (synthesize h a fsa))))
      = fst (last (report_writes (snd (synthesize h b fsb)))))
     = (take 8 (session_id a) = take 8 (session_id b))"
  by (simp add: synthesize_def report_file_def Let_def)

lemma uuid4_text_sessions: "uuid4_text session_a" "uuid4_text session_b" "uuid4_text session_c"
  by (simp_all add: uuid4_text_def session_a_def session_b_def session_c_def)

theorem report_file_by_prefix_witness:
  "uuid4_text session_a \<and> uuid4_text session_c \<and>
   fst (last (report_writes (snd (synthesize sample_home
       (Orchestrator session_a ''Ship it'' 1 True) empty_storage))))
   \<noteq> fst (last (report_writes (snd (synthesize sample_home
       (Orchestrator session_c ''Ship it'' 1 True) empty_storage))))"
proof -
  have a: "uuid4_text (session_id (Orchestrator session_a ''Ship it'' 1 True))"
    and c: "uuid4_text (session_id (Orchestrator session_c ''Ship it'' 1 True))"
    by (simp_all add: Orchestrator_def uuid4_text_sessions)
  have "take 8 (session_id (Orchestrator session_a ''Ship it'' 1 True))
      \<noteq> take 8 (session_id (Orchestrator session_c ''Ship it'' 1 True))"
    by (simp add: Orchestrator_def session_a_def session_c_def)
  with report_file_by_prefix [OF a c, of sample_home empty_storage empty_storage]
  show ?thesis by (simp add: uuid4_text_sessions)
qed

text \<open>
  The claim as stated asks for different paths whenever the session ids differ. Two
  session ids that differ only after their first eight characters name the same file,
  and the later report replaces the earlier one.
\<close>

theorem report_overwritten_counterexample:
  "uuid4_text session_a \<and> uuid4_text session_b \<and> session_a \<noteq> session_b \<and>
   map fst (report_writes (snd (synthesize sample_home (Orchestrator session_b ''Ship it'' 0 True)
      (snd (synthesize sample_home (Orchestrator session_a ''Ship it'' 0 True) empty_storage))))) =
     [[''/'', ''home'', ''dev'', ''.claude'', ''data'', ''reports'', ''synthesis_report_3f2a9c1e.md''],
      [''/'', ''home'', ''dev'', ''.claude'', ''data'', ''reports'', ''synthesis_report_3f2a9c1e.md'']]"
  by (simp add: uuid4_text_sessions)
    (simp add: synthesize_def report_file_def DATA_DIR_def Let_def Orchestrator_def
      session_a_def session_b_def sample_home_def empty_storage_def)

section \<open>Properties of the run\<close>

lemma terminal_count_entries:
  "terminal_count state = length (filter entry_terminal (snapshot_entries state))"
proof -
  have "entry_terminal = (\<lambda>e. json_field ''status'' e = Some (JString ''completed'') \<or>
                              json_field ''status'' e = Some (JString ''failed''))"
    by (auto simp: entry_terminal_def value_terminal_def fun_eq_iff split: option.splits)
  then show ?thesis
    by (simp add: terminal_count_def snapshot_entries_def split: option.splits json.splits)
qed

lemma entry_terminal_make_entry: "entry_terminal (make_entry vals snippet) = value_terminal (vals ! 2)"
  by (simp add: entry_terminal_def make_entry_def)

lemma value_terminal_status: "value_terminal (JString (status t)) = terminal t"
  by (simp add: value_terminal_def terminal_def)

lemma count_mono:
  assumes "length xs = length ys"
    and "\<And>j. j < length xs \<Longrightarrow> P (xs ! j) \<Longrightarrow> Q (ys ! j)"
  shows "length (filter P xs) \<le> length (filter Q ys)"
  using assms
proof (induction xs ys rule: list_induct2)
  case Nil
  show ?case by simp
next
  case (Cons x xs y ys)
  have "length (filter P xs) \<le> length (filter Q ys)"
  proof (rule Cons.IH)
    fix j assume "j < length xs" "P (xs ! j)"
    with Cons.prems [of "Suc j"] show "Q (ys ! j)" by simp
  qed
  moreover have "P x \<Longrightarrow> Q y"
    using Cons.prems [of 0] by simp
  ultimately show ?case by auto
qed

text \<open>Steps of a worker.\<close>

lemma worker_step_frame:
  "main_pc (worker_step env i p) = main_pc p"
  "pool_fs (worker_step env i p) = pool_fs p"
  "yielded (worker_step env i p) = yielded p"
  "length (tasks (pool_self (worker_step env i p))) = length (tasks (pool_self p))"
  "length (futures (worker_step env i p)) = length (futures p)"
  "test_mode (pool_self (worker_step env i p)) = test_mode (pool_self p)"
  by (auto simp: worker_step_def set_task_def Let_def split: future.splits prod.splits)

lemma worker_step_other:
  "j \<noteq> i \<Longrightarrow> tasks (pool_self (worker_step env i p)) ! j = tasks (pool_self p) ! j"
  "j \<noteq> i \<Longrightarrow> futures (worker_step env i p) ! j = futures p ! j"
  by (auto simp: worker_step_def set_task_def Let_def split: future.splits prod.splits)

lemma worker_step_keeps_terminal:
  assumes "steady env p" and "j < length (tasks (pool_self p))"
    and "terminal (tasks (pool_self p) ! j)"
  shows "terminal (tasks (pool_self (worker_step env i p)) ! j)"
proof (cases "i = j")
  case False
  with assms(3) show ?thesis by (simp add: worker_step_other)
next
  case True
  from assms(1,2) have len: "j < length (futures p)" by (simp add: steady_def)
  show ?thesis
  proof (cases "futures p ! j")
    case Finished
    with True len assms(3) show ?thesis by (simp add: worker_step_def)
  next
    case (Running k)
    obtain ws r where ws: "execute_assignments (worker_env env j) (test_mode (pool_self p))
        (tasks (pool_self p) ! j) = (ws, r)"
      by (cases "execute_assignments (worker_env env j) (test_mode (pool_self p))
        (tasks (pool_self p) ! j)")
    show ?thesis
    proof (cases "k < length ws")
      case False
      with True len Running ws assms(3) show ?thesis
        by (simp add: worker_step_def)
    next
      case less: True
      from assms(1) len Running assms(3) ws less have "\<not> status_write (ws ! k)"
        by (auto simp: steady_def)
      then have "status (assign (ws ! k) (tasks (pool_self p) ! j)) = status (tasks (pool_self p) ! j)"
        by (rule status_assign)
      with assms(3) have "terminal (assign (ws ! k) (tasks (pool_self p) ! j))"
        by (simp add: terminal_def)
      with True len Running ws less assms(2) show ?thesis
        by (simp add: worker_step_def set_task_def)
    qed
  qed
qed

lemma worker_step_steady:
  assumes "steady env p"
  shows "steady env (worker_step env i p)"
proof -
  from assms have len: "length (futures p) = length (tasks (pool_self p))"
    by (simp add: steady_def)
  have keep: "\<forall>k. futures (worker_step env i p) ! j = Running k \<longrightarrow>
         terminal (tasks (pool_self (worker_step env i p)) ! j) \<longrightarrow>
         (\<forall>l\<ge>k. l < length (fst (execute_assignments (worker_env env j)
                 (test_mode (pool_self p)) (tasks (pool_self (worker_step env i p)) ! j))) \<longrightarrow>
            \<not> status_write (fst (execute_assignments (worker_env env j)
                 (test_mode (pool_self p)) (tasks (pool_self (worker_step env i p)) ! j)) ! l))"
    if j: "j < length (futures p)" for j
  proof (cases "j = i")
    case False
    with assms j show ?thesis
      by (simp add: worker_step_other steady_def)
  next
    case True
    let ?t = "tasks (pool_self p) ! i"
    obtain ws r where ws: "execute_assignments (worker_env env i) (test_mode (pool_self p)) ?t
        = (ws, r)"
      by (cases "execute_assignments (worker_env env i) (test_mode (pool_self p)) ?t")
    from j True have i: "i < length (futures p)" by simp
    show ?thesis
    proof (cases "futures p ! i")
      case Finished
      with i True show ?thesis by (simp add: worker_step_def)
    next
      case (Running k)
      show ?thesis
      proof (cases "k < length ws")
        case False
        with i Running ws True assms show ?thesis
          by (cases r) (auto simp: worker_step_def steady_def)
      next
        case less: True
        let ?t' = "assign (ws ! k) ?t"
        have step: "tasks (pool_self (worker_step env i p)) ! i = ?t'"
          "futures (worker_step env i p) ! i = Running (Suc k)"
          using i Running ws less len by (simp_all add: worker_step_def set_task_def)
        have ws': "execute_assignments (worker_env env i) (test_mode (pool_self p)) ?t' = (ws, r)"
          by (simp add: execute_assignments_assign ws)
        have "\<not> status_write (ws ! l)"
          if "terminal ?t'" and "Suc k \<le> l" and "l < length ws" for l
        proof (cases "status_write (ws ! k)")
          case True
          then obtain s where s: "ws ! k = SetStatus s"
            by (cases "ws ! k") (simp_all add: status_write_def)
          with that(1) have "s = ''completed'' \<or> s = ''failed''"
            by (simp add: terminal_def)
          from terminal_status_is_last [OF ws s this _ that(3)] that(2)
          show ?thesis by simp
        next
          case False
          then have "status ?t' = status ?t" by (rule status_assign)
          with that(1) have "terminal ?t" by (simp add: terminal_def)
          with assms i Running ws that(2,3) show ?thesis
            by (auto simp: steady_def)
        qed
        with True step ws' show ?thesis by auto
      qed
    qed
  qed
  from len keep show ?thesis
    by (simp add: steady_def worker_step_frame)
qed

lemma main_step_frame:
  "pool_self (main_step env p) = pool_self p"
  "futures (main_step env p) = futures p"
  by (auto simp: main_step_def Let_def split: main_pc.splits option.splits bool.splits)

lemma main_step_steady: "steady env p \<Longrightarrow> steady env (main_step env p)"
  by (simp add: steady_def main_step_frame)

lemma pool_step_steady: "steady env p \<Longrightarrow> steady env (pool_step env th p)"
  by (cases th) (simp_all add: worker_step_steady main_step_steady)

lemma worker_step_faithful:
  assumes "steady env p" and "faithful k0 p"
  shows "faithful k0 (worker_step env i p)"
proof -
  have keep: "terminal (tasks (pool_self (worker_step env i p)) ! j)"
    if "j < length (tasks (pool_self p))" "terminal (tasks (pool_self p) ! j)" for j
    using assms(1) that by (rule worker_step_keeps_terminal)
  from assms(2) show ?thesis
    unfolding faithful_def Let_def worker_step_frame
    by (auto simp: keep split: main_pc.splits)
qed

lemma snapshot_entries_record:
  "snapshot_entries (JObject [(''session_id'', a), (''timestamp'', b), (''main_prompt'', c),
      (''tasks'', JArray entries)]) = entries"
  by (simp add: snapshot_entries_def)

lemma main_step_faithful:
  assumes "faithful k0 p"
  shows "faithful k0 (main_step env p)"
proof (cases "main_pc p")
  case Waiting
  with assms show ?thesis
    by (auto simp: main_step_def faithful_def Let_def)
next
  case (Saving now entries vals truthy)
  let ?ts = "tasks (pool_self p)"
  let ?written = "state_writes (pool_fs p)"
  let ?prev = "snapshot_entries (last ?written)"
  from assms Saving have inv:
    "k0 < length ?written"
    "sorted (map terminal_count (drop k0 ?written))"
    "\<forall>c \<in> set (map terminal_count (drop k0 ?written)). c \<le> terminal_count (last ?written)"
    "length ?prev = length ?ts"
    "\<forall>j<length ?ts. entry_terminal (?prev ! j) \<longrightarrow> terminal (?ts ! j)"
    "length entries \<le> length ?ts"
    "\<forall>j<length entries.
        (entry_terminal (?prev ! j) \<longrightarrow> entry_terminal (entries ! j)) \<and>
        (entry_terminal (entries ! j) \<longrightarrow> terminal (?ts ! j))"
    "length vals \<le> 5"
    "truthy \<noteq> None \<longrightarrow> length vals = 5"
    "vals \<noteq> [] \<longrightarrow> length entries < length ?ts"
    "2 < length vals \<longrightarrow>
       (entry_terminal (?prev ! length entries) \<longrightarrow> value_terminal (vals ! 2)) \<and>
       (value_terminal (vals ! 2) \<longrightarrow> terminal (?ts ! length entries))"
    by (simp_all add: faithful_def Let_def)
  show ?thesis
  proof (cases "length entries < length ?ts")
    case more: True
    let ?t = "?ts ! length entries"
    show ?thesis
    proof (cases "length vals < 5")
      case True
      have pc: "main_step env p =
          p\<lparr>main_pc := Saving now entries (vals @ [read_value (length vals) ?t]) None\<rparr>"
        using Saving more True by (simp add: main_step_def Let_def)
      have third: "(entry_terminal (?prev ! length entries) \<longrightarrow>
            value_terminal ((vals @ [read_value (length vals) ?t]) ! 2)) \<and>
          (value_terminal ((vals @ [read_value (length vals) ?t]) ! 2) \<longrightarrow> terminal ?t)"
        if "2 < Suc (length vals)"
      proof (cases "length vals = 2")
        case True
        then have "(vals @ [read_value (length vals) ?t]) ! 2 = JString (status ?t)"
          by (simp add: nth_append read_value_def)
        with inv(5) more show ?thesis
          by (simp add: value_terminal_status)
      next
        case False
        with that have "2 < length vals" by simp
        with inv(11) show ?thesis by (simp add: nth_append)
      qed
      from inv True more third show ?thesis
        unfolding pc faithful_def Let_def by simp
    next
      case False
      with inv(8) have five: "length vals = 5" by simp
      show ?thesis
      proof (cases truthy)
        case None
        have pc: "main_step env p = p\<lparr>main_pc := Saving now entries vals (Some (result ?t \<noteq> []))\<rparr>"
          using Saving more five None by (simp add: main_step_def Let_def)
        from inv five show ?thesis
          unfolding pc faithful_def Let_def by simp
      next
        case (Some c)
        obtain snippet where pc: "main_step env p =
            p\<lparr>main_pc := Saving now (entries @ [make_entry vals snippet]) [] None\<rparr>"
          using Saving more five Some by (cases c) (simp_all add: main_step_def Let_def)
        have "(entry_terminal (?prev ! j) \<longrightarrow> entry_terminal ((entries @ [make_entry vals snippet]) ! j)) \<and>
            (entry_terminal ((entries @ [make_entry vals snippet]) ! j) \<longrightarrow> terminal (?ts ! j))"
          if "j < Suc (length entries)" for j
        proof (cases "j < length entries")
          case True
          with inv(7) show ?thesis by (simp add: nth_append)
        next
          case False
          with that have "j = length entries" by simp
          with inv(11) five show ?thesis
            by (simp add: nth_append entry_terminal_make_entry)
        qed
        with inv more show ?thesis
          unfolding pc faithful_def Let_def by simp
      qed
    qed
  next
    case False
    with inv(6) have all: "length entries = length ?ts" by simp
    let ?state = "JObject [(''session_id'', JString (session_id (pool_self p))),
                          (''timestamp'', JString now),
                          (''main_prompt'', JString (main_prompt (pool_self p))),
                          (''tasks'', JArray entries)]"
    have pc: "main_step env p =
        p\<lparr>main_pc := Waiting, yielded := Suc (yielded p),
          pool_fs := (pool_fs p)\<lparr>state_writes := ?written @ [?state]\<rparr>\<rparr>"
      using Saving False by (simp add: main_step_def)
    have "length (filter entry_terminal ?prev) \<le> length (filter entry_terminal entries)"
    proof (rule count_mono)
      show "length ?prev = length entries" using inv(4) all by simp
    next
      fix j assume "j < length ?prev" "entry_terminal (?prev ! j)"
      with inv(4,7) all show "entry_terminal (entries ! j)" by simp
    qed
    then have le: "terminal_count (last ?written) \<le> terminal_count ?state"
      by (simp add: terminal_count_entries snapshot_entries_record)
    with inv(3) have below: "\<forall>c \<in> set (map terminal_count (drop k0 ?written)). c \<le> terminal_count ?state"
      by fastforce
    from inv(1,2,7) all below show ?thesis
      unfolding pc faithful_def Let_def
      by (simp add: sorted_append snapshot_entries_record)
  qed
qed

lemma pool_step_faithful:
  assumes "steady env p" and "faithful k0 p"
  shows "faithful k0 (pool_step env th p)"
  using assms by (cases th) (simp_all add: worker_step_faithful main_step_faithful)

lemma fold_pool_step_faithful:
  assumes "steady env p" and "faithful k0 p"
  shows "faithful k0 (fold (pool_step env) schedule p)"
  using assms
proof (induction schedule arbitrary: p)
  case Nil
  then show ?case by simp
next
  case (Cons th schedule)
  then show ?case by (simp add: pool_step_steady pool_step_faithful)
qed

lemma initialize_tasks_pending:
  "\<forall>t \<in> set (tasks (initialize_tasks uuid4 (Orchestrator sid objective n m))). status t = ''pending''"
  by (simp add: initialize_tasks_eq derive_task_eq)


lemma initialize_tasks_agent_count:
  "agent_count (initialize_tasks uuid4 (Orchestrator sid objective n m)) = n"
  by (simp add: initialize_tasks_eq) (simp add: Orchestrator_def)

lemma save_state_self: "fst (save_state now self fs) = self"
  by (simp add: save_state_def)

lemma synthesize_state_writes:
  "state_writes (snd (synthesize h self fs)) = state_writes fs"
  by (simp add: synthesize_def Let_def)

text \<open>
  Claim C4 asks for a run with zero workers to end with a report that has the header
  only. With the agent count 0 the run derives no task and writes the first snapshot, and
  then the construction of the thread pool raises; no report is written.
\<close>

theorem run_zero_agents:
  "run env schedule (Orchestrator sid objective 0 m) fs =
     (Raises ''max_workers must be greater than 0'',
      Orchestrator sid objective 0 m,
      fs\<lparr>state_writes := state_writes fs @
        [JObject [(''session_id'', JString sid), (''timestamp'', JString (save_clock env 0)),
                  (''main_prompt'', JString objective), (''tasks'', JArray [])]]\<rparr>)"
  by (simp add: run_def initialize_tasks_def save_state_def Orchestrator_def)

lemma save_state_entries:
  "\<exists>s. state_writes (snd (save_state now self fs)) = state_writes fs @ [s] \<and>
     length (snapshot_entries s) = length (tasks self) \<and>
     (\<forall>j<length (tasks self). entry_terminal (snapshot_entries s ! j) = terminal (tasks self ! j))"
  by (simp add: save_state_def Let_def snapshot_entries_def entry_terminal_def
      value_terminal_def terminal_def)

text \<open>
  Claim C5. Whatever the surroundings and the schedule, the snapshots written by one run
  of a freshly constructed orchestrator, in the order they were written, have terminal
  counts that never decrease. The run may have returned, raised or still be under way;
  the workers may assign between any two reads of a \<^verbatim>\<open>save_state\<close>.
\<close>

theorem snapshots_monotone:
  "sorted (map terminal_count
     (drop (length (state_writes fs))
        (state_writes (snd (snd (run env schedule (Orchestrator sid objective n m) fs))))))"
proof -
  let ?derived = "initialize_tasks (task_uuid4 env) (Orchestrator sid objective n m)"
  let ?saved = "snd (save_state (save_clock env 0) ?derived fs)"
  let ?k = "length (state_writes fs)"
  obtain s where s: "state_writes ?saved = state_writes fs @ [s]"
    and len: "length (snapshot_entries s) = length (tasks ?derived)"
    and ent: "\<forall>j<length (tasks ?derived).
        entry_terminal (snapshot_entries s ! j) = terminal (tasks ?derived ! j)"
    using save_state_entries by blast
  let ?start = "\<lparr>pool_self = ?derived, futures = map (\<lambda>_. Running 0) (tasks ?derived),
               main_pc = Waiting, yielded = 0, pool_fs = ?saved\<rparr>"
  let ?final = "fold (pool_step env) schedule ?start"
  have run: "snd (snd (run env schedule (Orchestrator sid objective n m) fs)) =
      (if n \<le> 0 then ?saved
       else if yielded ?final < length (futures ?final) then pool_fs ?final
       else snd (synthesize (home env) (pool_self ?final) (pool_fs ?final)))"
    by (simp add: run_def Let_def case_prod_beta save_state_self initialize_tasks_agent_count)
  have pending: "\<not> terminal (tasks ?derived ! j)" if "j < length (tasks ?derived)" for j
    using initialize_tasks_pending [of "task_uuid4 env" sid objective n m] that
    by (auto simp: terminal_def)
  then have steady: "steady env ?start"
    by (simp add: steady_def)
  have faithful: "faithful ?k ?start"
    using len ent pending by (simp add: faithful_def Let_def s)
  from fold_pool_step_faithful [OF steady faithful]
  have "faithful ?k ?final" .
  then have "sorted (map terminal_count (drop ?k (state_writes (pool_fs ?final))))"
    by (simp add: faithful_def Let_def)
  then show ?thesis
    by (simp add: run s synthesize_state_writes)
qed

lemma sample_counts:
  "map terminal_count (state_writes (snd (snd
      (run sample_run_env sample_schedule
         (Orchestrator session_a ''Review the login flow'' 2 True) empty_storage)))) = [0, 2, 2]"
  by code_simp

text \<open>Under the sample schedule the second snapshot shows task 1 completed before its
  \<^verbatim>\<open>ended_at\<close> is assigned.\<close>

lemma sample_snapshot_between_assignments:
  "snapshot_entries (state_writes (snd (snd
      (run sample_run_env sample_schedule
         (Orchestrator session_a ''Review the login flow'' 2 True) empty_storage))) ! 1) ! 1 =
     JObject
       [(''id'', JString ''0b4e2c1a-7f3d-4a6b-9c58-1d2e3f4a5b61''),
        (''name'', JString ''backend-specialist''),
        (''status'', JString ''completed''),
        (''started_at'', JString ''2025-01-01T10:00:00.000001''),
        (''ended_at'', JNull),
        (''result_snippet'', JString
           ''MOCK RESULT for backend-specialist: Analyzed Use the backend-specialist age... found 3 issues.'')]"
  by code_simp

theorem snapshots_monotone_witness:
  "sorted (map terminal_count (state_writes (snd (snd
      (run sample_run_env sample_schedule
         (Orchestrator session_a ''Review the login flow'' 2 True) empty_storage))))) \<and>
   map terminal_count (state_writes (snd (snd
      (run sample_run_env sample_schedule
         (Orchestrator session_a ''Review the login flow'' 2 True) empty_storage)))) = [0, 2, 2]"
  using snapshots_monotone [of empty_storage sample_run_env sample_schedule session_a
      "''Review the login flow''" 2 True] sample_counts
  by (simp add: empty_storage_def)

section \<open>What a returned run leaves behind\<close>

lemma execute_assignments_fold:
  "execute_assignments env m (fold assign ws t) = execute_assignments env m t"
  by (induction ws arbitrary: t) (simp_all add: execute_assignments_assign)

lemma length_filter_update_Finished:
  "length (filter (\<lambda>f. f = Finished) fs)
     \<le> length (filter (\<lambda>f. f = Finished) (fs[i := Finished]))"
proof (induction fs arbitrary: i)
  case Nil
  show ?case by simp
next
  case (Cons f fs)
  show ?case
  proof (cases i)
    case 0
    then show ?thesis by simp
  next
    case (Suc j)
    with Cons.IH [of j] show ?thesis by simp
  qed
qed

lemma length_filter_update_Running:
  "fs ! i = Running k \<Longrightarrow>
   length (filter (\<lambda>f. f = Finished) (fs[i := Running l])) = length (filter (\<lambda>f. f = Finished) fs)"
proof (induction fs arbitrary: i)
  case Nil
  show ?case by simp
next
  case (Cons f fs)
  show ?case
  proof (cases i)
    case 0
    with Cons.prems show ?thesis by simp
  next
    case (Suc j)
    with Cons.prems Cons.IH [of j] show ?thesis by simp
  qed
qed

lemma worker_step_tracks:
  assumes "tracks env self0 fs0 p"
  shows "tracks env self0 fs0 (worker_step env i p)"
proof (cases "i < length (futures p)")
  case False
  then show ?thesis using assms by (simp add: worker_step_def)
next
  case True
  show ?thesis
  proof (cases "futures p ! i")
    case Finished
    with True assms show ?thesis by (simp add: worker_step_def)
  next
    case (Running k)
    let ?init = "tasks self0 ! i"
    let ?cur = "tasks (pool_self p) ! i"
    obtain ws r where ws: "execute_assignments (worker_env env i) (test_mode self0) ?init = (ws, r)"
      by (cases "execute_assignments (worker_env env i) (test_mode self0) ?init")
    from assms have mode: "test_mode (pool_self p) = test_mode self0"
      and len: "length (tasks (pool_self p)) = length (futures p)"
      and n: "length (futures p) = length (tasks self0)"
      by (simp_all add: tracks_def)
    from assms True Running n
    have "k \<le> length (fst (execute_assignments (worker_env env i) (test_mode self0) ?init)) \<and>
        ?cur = fold assign (take k (fst (execute_assignments (worker_env env i) (test_mode self0)
          ?init))) ?init"
      by (auto simp: tracks_def)
    then have k: "k \<le> length ws" and t: "?cur = fold assign (take k ws) ?init"
      by (simp_all add: ws)
    have ws': "execute_assignments (worker_env env i) (test_mode (pool_self p)) ?cur = (ws, r)"
      by (simp add: mode t execute_assignments_fold ws)
    show ?thesis
    proof (cases "k < length ws")
      case less: True
      have step: "worker_step env i p =
          p\<lparr>pool_self := set_task i (assign (ws ! k) ?cur) (pool_self p),
            futures := (futures p)[i := Running (Suc k)]\<rparr>"
        using True Running ws' less by (simp add: worker_step_def)
      have "assign (ws ! k) ?cur = fold assign (take (Suc k) ws) ?init"
        using less by (simp add: t take_Suc_conv_app_nth)
      with assms True less ws show ?thesis
        unfolding step tracks_def
        using length_filter_update_Running [OF Running, of "Suc k"]
        by (auto simp: set_task_def nth_list_update)
    next
      case False
      with k have full: "k = length ws" by simp
      show ?thesis
      proof (cases r)
        case False
        with True Running ws' full show ?thesis
          using assms by (simp add: worker_step_def)
      next
        case returns: True
        have step: "worker_step env i p = p\<lparr>futures := (futures p)[i := Finished]\<rparr>"
          using True Running ws' full returns by (simp add: worker_step_def)
        have "execute (worker_env env i) (test_mode self0) ?init = Returns ?cur"
          using ws returns by (simp add: execute_assignments_sound t full)
        with assms True show ?thesis
          unfolding step tracks_def
          using length_filter_update_Finished [of "futures p" i]
          by (auto simp: nth_list_update)
      qed
    qed
  qed
qed

lemma main_step_tracks:
  assumes "tracks env self0 fs0 p"
  shows "tracks env self0 fs0 (main_step env p)"
  using assms
  by (cases "main_pc p")
    (auto simp: main_step_def tracks_def Let_def split: option.splits bool.splits)

lemma fold_pool_step_tracks:
  assumes "tracks env self0 fs0 p"
  shows "tracks env self0 fs0 (fold (pool_step env) schedule p)"
  using assms
proof (induction schedule arbitrary: p)
  case Nil
  then show ?case by simp
next
  case (Cons th schedule)
  have "tracks env self0 fs0 (pool_step env th p)"
    using Cons.prems by (cases th) (simp_all add: worker_step_tracks main_step_tracks)
  then show ?case by (simp add: Cons.IH)
qed

lemma all_finished:
  assumes "length fs \<le> length (filter (\<lambda>f. f = Finished) fs)" and "i < length fs"
  shows "fs ! i = Finished"
proof (rule ccontr)
  assume "fs ! i \<noteq> Finished"
  with assms(2) have "length (filter (\<lambda>f. f = Finished) fs) < length fs"
    by (intro length_filter_less [of "fs ! i"]) simp_all
  with assms(1) show False by simp
qed

lemma tracks_drained:
  assumes "tracks env self0 fs0 p" and "\<not> yielded p < length (futures p)"
    and "i < length (tasks self0)"
  shows "execute (worker_env env i) (test_mode self0) (tasks self0 ! i)
     = Returns (tasks (pool_self p) ! i)"
proof -
  from assms(1,2) have "length (futures p) \<le> length (filter (\<lambda>f. f = Finished) (futures p))"
    by (simp add: tracks_def)
  moreover from assms(1,3) have "i < length (futures p)" by (simp add: tracks_def)
  ultimately have "futures p ! i = Finished" by (rule all_finished)
  with assms(1,3) show ?thesis by (simp add: tracks_def)
qed

text \<open>A worker that no other thread interrupts does what \<^verbatim>\<open>execute\<close> does.\<close>

lemma save_state_task_entry:
  "save_state now self fs =
     (self, fs\<lparr>state_writes := state_writes fs @
        [JObject [(''session_id'', JString (session_id self)),
                  (''timestamp'', JString now),
                  (''main_prompt'', JString (main_prompt self)),
                  (''tasks'', JArray (map task_entry (tasks self)))]]\<rparr>)"
  by (simp add: save_state_def Let_def task_entry_def [abs_def])

lemma worker_steps:
  assumes "i < length (futures p)" and "length (tasks (pool_self p)) = length (futures p)"
    and "futures p ! i = Running k"
    and "execute_assignments (worker_env env i) (test_mode (pool_self p))
           (tasks (pool_self p) ! i) = (ws, r)"
    and "k + d \<le> length ws"
  shows "fold (pool_step env) (replicate d (Worker i)) p =
     p\<lparr>pool_self := set_task i (fold assign (take d (drop k ws)) (tasks (pool_self p) ! i))
                       (pool_self p),
       futures := (futures p)[i := Running (k + d)]\<rparr>"
  using assms
proof (induction d arbitrary: p k)
  case 0
  from "0.prems"(1,3) have "(futures p)[i := Running k] = futures p"
    by (simp add: list_update_same_conv)
  then show ?case
    by (simp add: set_task_def)
next
  case (Suc d)
  let ?cur = "tasks (pool_self p) ! i"
  let ?next = "p\<lparr>pool_self := set_task i (assign (ws ! k) ?cur) (pool_self p),
                futures := (futures p)[i := Running (Suc k)]\<rparr>"
  from Suc.prems have less: "k < length ws" by simp
  have step: "worker_step env i p = ?next"
    using Suc.prems(1,3,4) less by (simp add: worker_step_def)
  have cur': "tasks (pool_self ?next) ! i = assign (ws ! k) ?cur"
    using Suc.prems(1,2) by (simp add: set_task_def)
  have "fold (pool_step env) (replicate d (Worker i)) ?next =
      ?next\<lparr>pool_self := set_task i (fold assign (take d (drop (Suc k) ws))
                  (tasks (pool_self ?next) ! i)) (pool_self ?next),
        futures := (futures ?next)[i := Running (Suc k + d)]\<rparr>"
  proof (rule Suc.IH)
    show "i < length (futures ?next)" using Suc.prems(1) by simp
    show "length (tasks (pool_self ?next)) = length (futures ?next)"
      using Suc.prems(2) by (simp add: set_task_def)
    show "futures ?next ! i = Running (Suc k)" using Suc.prems(1) by simp
    show "execute_assignments (worker_env env i) (test_mode (pool_self ?next))
        (tasks (pool_self ?next) ! i) = (ws, r)"
      unfolding cur' execute_assignments_assign using Suc.prems(4) by (simp add: set_task_def)
    show "Suc k + d \<le> length ws" using Suc.prems(5) by simp
  qed
  also have "\<dots> = p\<lparr>pool_self := set_task i (fold assign (take d (drop (Suc k) ws))
                  (assign (ws ! k) ?cur)) (pool_self p),
        futures := (futures p)[i := Running (k + Suc d)]\<rparr>"
    unfolding cur' by (simp add: set_task_def)
  also have "fold assign (take d (drop (Suc k) ws)) (assign (ws ! k) ?cur)
      = fold assign (take (Suc d) (drop k ws)) ?cur"
    using less by (simp add: Cons_nth_drop_Suc [symmetric])
  finally show ?case
    by (simp add: step)
qed

lemma worker_runs_execute:
  assumes "i < length (futures p)" and "length (tasks (pool_self p)) = length (futures p)"
    and "futures p ! i = Running 0"
    and "execute (worker_env env i) (test_mode (pool_self p)) (tasks (pool_self p) ! i) = Returns t'"
  shows "fold (pool_step env)
       (replicate (Suc (length (fst (execute_assignments (worker_env env i)
          (test_mode (pool_self p)) (tasks (pool_self p) ! i))))) (Worker i)) p =
     p\<lparr>pool_self := set_task i t' (pool_self p), futures := (futures p)[i := Finished]\<rparr>"
proof -
  let ?cur = "tasks (pool_self p) ! i"
  obtain ws r where ws: "execute_assignments (worker_env env i) (test_mode (pool_self p)) ?cur
      = (ws, r)"
    by (cases "execute_assignments (worker_env env i) (test_mode (pool_self p)) ?cur")
  from assms(4) ws have r: "r" and t': "t' = fold assign ws ?cur"
    by (auto simp: execute_assignments_sound split: if_splits)
  let ?mid = "p\<lparr>pool_self := set_task i t' (pool_self p),
               futures := (futures p)[i := Running (length ws)]\<rparr>"
  have "fold (pool_step env) (replicate (length ws) (Worker i)) p = ?mid"
    using worker_steps [OF assms(1,2,3) ws, of "length ws"] by (simp add: t')
  moreover have "worker_step env i ?mid = ?mid\<lparr>futures := (futures ?mid)[i := Finished]\<rparr>"
    using assms(1,2) ws r
    by (simp add: worker_step_def set_task_def t' execute_assignments_fold)
  ultimately show ?thesis
    by (simp add: ws replicate_append_same [symmetric] del: replicate_Suc)
qed

text \<open>A \<^verbatim>\<open>save_state\<close> that no worker interrupts writes what the function gives.\<close>

lemma main_reads_entry:
  assumes "main_pc p = Saving now entries [] None"
    and "length entries < length (tasks (pool_self p))"
  shows "fold (pool_step env) (replicate 7 Main) p =
     p\<lparr>main_pc := Saving now (entries @ [task_entry (tasks (pool_self p) ! length entries)]) [] None\<rparr>"
proof -
  have seven: "replicate 7 Main = [Main, Main, Main, Main, Main, Main, Main]"
    by (simp add: numeral_eq_Suc)
  show ?thesis
    unfolding seven using assms
    by (simp add: main_step_def read_value_def make_entry_def task_entry_def Let_def)
qed

lemma main_reads_all:
  assumes "main_pc p = Saving now entries [] None"
    and "length entries + d = length (tasks (pool_self p))"
  shows "fold (pool_step env) (replicate (7 * d) Main) p =
     p\<lparr>main_pc := Saving now (entries @ map task_entry (drop (length entries) (tasks (pool_self p))))
          [] None\<rparr>"
  using assms
proof (induction d arbitrary: p entries)
  case 0
  then show ?case by simp
next
  case (Suc d)
  let ?e = "task_entry (tasks (pool_self p) ! length entries)"
  let ?next = "p\<lparr>main_pc := Saving now (entries @ [?e]) [] None\<rparr>"
  have split: "replicate (7 * Suc d) Main = replicate 7 Main @ replicate (7 * d) Main"
    by (simp add: replicate_add [symmetric])
  from Suc.prems have less: "length entries < length (tasks (pool_self p))" by simp
  have one: "fold (pool_step env) (replicate 7 Main) p = ?next"
    using Suc.prems(1) less by (rule main_reads_entry)
  have rest: "fold (pool_step env) (replicate (7 * d) Main) ?next =
      ?next\<lparr>main_pc := Saving now ((entries @ [?e]) @
          map task_entry (drop (length (entries @ [?e])) (tasks (pool_self ?next)))) [] None\<rparr>"
    by (rule Suc.IH) (use Suc.prems in simp_all)
  have "drop (length entries) (tasks (pool_self p)) =
      tasks (pool_self p) ! length entries # drop (Suc (length entries)) (tasks (pool_self p))"
    using less by (simp add: Cons_nth_drop_Suc)
  then show ?case
    unfolding split fold_append comp_def one rest by simp
qed

lemma main_saves:
  assumes "main_pc p = Waiting"
    and "yielded p < length (filter (\<lambda>f. f = Finished) (futures p))"
  shows "fold (pool_step env) (replicate (7 * length (tasks (pool_self p)) + 2) Main) p =
     p\<lparr>yielded := Suc (yielded p),
       pool_fs := snd (save_state (save_clock env (Suc (yielded p))) (pool_self p) (pool_fs p))\<rparr>"
proof -
  let ?n = "length (tasks (pool_self p))"
  let ?now = "save_clock env (Suc (yielded p))"
  let ?a = "p\<lparr>main_pc := Saving ?now [] [] None\<rparr>"
  let ?b = "p\<lparr>main_pc := Saving ?now (map task_entry (tasks (pool_self p))) [] None\<rparr>"
  have split: "replicate (7 * ?n + 2) Main = Main # replicate (7 * ?n) Main @ [Main]"
    by (simp add: replicate_append_same)
  have a: "main_step env p = ?a"
    using assms by (simp add: main_step_def)
  have b: "fold (pool_step env) (replicate (7 * ?n) Main) ?a = ?b"
    using main_reads_all [of ?a ?now "[]" ?n env] by simp
  have c: "main_step env ?b =
      p\<lparr>yielded := Suc (yielded p), pool_fs := snd (save_state ?now (pool_self p) (pool_fs p))\<rparr>"
    using assms(1) by (simp add: main_step_def save_state_task_entry)
  show ?thesis
    unfolding split by (simp add: a b c del: fold_replicate)
qed

lemma execute_mock_returns:
  "execute env True t = Returns t' \<Longrightarrow>
   t' = t\<lparr>status := ''completed'', started_at := Some (now_started env),
          result := mock_result t, ended_at := Some (now_ended env)\<rparr>"
  by (simp add: execute_mock)

lemma login_flow_derived:
  "initialize_tasks uuid4 (Orchestrator sid ''Review the login flow'' 2 True) =
     \<lparr>main_prompt = ''Review the login flow'', agent_count = 2, test_mode = True,
      session_id = sid,
      tasks =
        [\<lparr>agent_id = uuid4 0,
          prompt = ''Use the security-auditor agent with security-checklist, api-patterns skills to focus on Architecture & Security: Review the login flow'',
          name = ''security-auditor'', status = ''pending'', result = [],
          started_at = None, ended_at = None, error = None\<rparr>,
         \<lparr>agent_id = uuid4 1,
          prompt = ''Use the backend-specialist agent with nodejs-best-practices, api-patterns skills to focus on Backend Implementation: Review the login flow'',
          name = ''backend-specialist'', status = ''pending'', result = [],
          started_at = None, ended_at = None, error = None\<rparr>]\<rparr>"
  by (simp add: initialize_tasks_def derive_task_def AgentTask_def Orchestrator_def
      agent_map_def upt_conv_Cons Let_def)


lemma mock_assignments_length: "length (fst (execute_assignments env True t)) = 5"
  by (simp add: execute_assignments_def Let_def)

lemma main_saves_two:
  assumes "length (tasks (pool_self p)) = 2" and "main_pc p = Waiting"
    and "yielded p < length (filter (\<lambda>f. f = Finished) (futures p))"
  shows "fold (pool_step env) (replicate 16 Main) p =
     p\<lparr>yielded := Suc (yielded p),
       pool_fs := snd (save_state (save_clock env (Suc (yielded p))) (pool_self p) (pool_fs p))\<rparr>"
proof -
  have "(16::nat) = 7 * length (tasks (pool_self p)) + 2"
    using assms(1) by simp
  then show ?thesis
    using main_saves [OF assms(2,3), of env] by (simp only:)
qed

lemma mock_pool_returns:
  assumes two: "length (tasks self) = 2" and mode: "test_mode self = True"
  shows "yielded (fold (pool_step env)
      (replicate 6 (Worker 0) @ replicate 6 (Worker 1) @ replicate 32 Main)
      \<lparr>pool_self = self, futures = map (\<lambda>_. Running 0) (tasks self),
       main_pc = Waiting, yielded = 0, pool_fs = fs\<rparr>) = 2 \<and>
    length (futures (fold (pool_step env)
      (replicate 6 (Worker 0) @ replicate 6 (Worker 1) @ replicate 32 Main)
      \<lparr>pool_self = self, futures = map (\<lambda>_. Running 0) (tasks self),
       main_pc = Waiting, yielded = 0, pool_fs = fs\<rparr>)) = 2"
proof -
  let ?start = "\<lparr>pool_self = self, futures = map (\<lambda>_. Running 0) (tasks self),
       main_pc = Waiting, yielded = 0, pool_fs = fs\<rparr>"
  from two have futures: "map (\<lambda>_. Running 0) (tasks self) = [Running 0, Running 0]"
    by (cases "tasks self"; cases "tl (tasks self)") auto
  obtain a where a: "execute (worker_env env 0) True (tasks self ! 0) = Returns a"
    by (simp add: execute_mock)
  have w0: "fold (pool_step env) (replicate 6 (Worker 0)) ?start =
      ?start\<lparr>pool_self := set_task 0 a self, futures := [Finished, Running 0]\<rparr>"
    using worker_runs_execute [of 0 ?start env a] a
    by (simp add: futures two mode mock_assignments_length del: fold_replicate)
  let ?one = "?start\<lparr>pool_self := set_task 0 a self, futures := [Finished, Running 0]\<rparr>"
  obtain b where b: "execute (worker_env env 1) True (tasks (set_task 0 a self) ! 1) = Returns b"
    by (simp add: execute_mock)
  have w1: "fold (pool_step env) (replicate 6 (Worker 1)) ?one =
      ?one\<lparr>pool_self := set_task 1 b (set_task 0 a self), futures := [Finished, Finished]\<rparr>"
    using worker_runs_execute [of 1 ?one env b] b
    by (simp add: two mode mock_assignments_length set_task_def del: fold_replicate)
  let ?two = "?start\<lparr>pool_self := set_task 1 b (set_task 0 a self), futures := [Finished, Finished]\<rparr>"
  have len: "length (tasks (set_task 1 b (set_task 0 a self))) = 2"
    by (simp add: set_task_def two)
  have m1: "fold (pool_step env) (replicate 16 Main) ?two =
      ?two\<lparr>yielded := 1,
        pool_fs := snd (save_state (save_clock env 1) (set_task 1 b (set_task 0 a self)) fs)\<rparr>"
    using main_saves_two [of ?two env] len by (simp del: fold_replicate)
  let ?three = "?two\<lparr>yielded := 1,
        pool_fs := snd (save_state (save_clock env 1) (set_task 1 b (set_task 0 a self)) fs)\<rparr>"
  have m2: "fold (pool_step env) (replicate 16 Main) ?three =
      ?three\<lparr>yielded := 2,
        pool_fs := snd (save_state (save_clock env 2) (set_task 1 b (set_task 0 a self))
          (pool_fs ?three))\<rparr>"
    using main_saves_two [of ?three env] len by (simp add: numeral_2_eq_2 del: fold_replicate)
  have split: "replicate 32 Main = replicate 16 Main @ replicate 16 Main"
    by (simp add: replicate_add [symmetric])
  show ?thesis
    unfolding split fold_append comp_def
    using w0 w1 m1 m2 by (simp del: fold_replicate)
qed

text \<open>In the mock mode a run returns once every worker has made its steps and the main
  thread has taken both futures and saved the state after each.\<close>

lemma login_flow_returns:
  "fst (run env (replicate 6 (Worker 0) @ replicate 6 (Worker 1) @ replicate 32 Main)
         (Orchestrator sid ''Review the login flow'' 2 True) fs) = Returns ()"
proof -
  let ?derived = "initialize_tasks (task_uuid4 env) (Orchestrator sid ''Review the login flow'' 2 True)"
  have "length (tasks ?derived) = 2" and "test_mode ?derived = True"
    by (simp_all add: login_flow_derived)
  from mock_pool_returns [OF this]
  show ?thesis
    by (simp add: run_def Let_def case_prod_beta save_state_self initialize_tasks_agent_count
        del: fold_replicate)
qed

text \<open>
  Claim C8, as the code has it. The run with objective \<^verbatim>\<open>Review the login flow\<close>,
  count 2 and the mock mode returns under a schedule that lets both workers finish and
  the main thread take both futures and save the state after each, whatever the
  surroundings; and whenever it returns,
  under any surroundings and any schedule, there are exactly two tasks, derived from entries 0 and 1 of the role table, both with status
  \<^verbatim>\<open>completed\<close>, and the report has the header and two sections. The mock result text of
  a task holds its label and the first 30 characters of its instruction; those are the
  beginning of the role preamble (\<^verbatim>\<open>Use the security-auditor agent\<close>,
  \<^verbatim>\<open>Use the backend-specialist age\<close>), and the objective, which ends the instruction,
  is not among them. The objective stands in the header of the report.
\<close>

theorem login_flow_mock_run:
  "fst (run env (replicate 6 (Worker 0) @ replicate 6 (Worker 1) @ replicate 32 Main)
          (Orchestrator sid ''Review the login flow'' 2 True) fs) = Returns () \<and>
   (fst (run env schedule (Orchestrator sid ''Review the login flow'' 2 True) fs) = Returns () \<longrightarrow>
    (case snd (run env schedule (Orchestrator sid ''Review the login flow'' 2 True) fs) of
     (self', fs') \<Rightarrow>
       map agent_id (tasks self') = [task_uuid4 env 0, task_uuid4 env 1] \<and>
       map name (tasks self') = [agent (agent_map ! 0), agent (agent_map ! 1)] \<and>
       map name (tasks self') = [''security-auditor'', ''backend-specialist''] \<and>
       map prompt (tasks self') =
         [''Use the security-auditor agent with security-checklist, api-patterns skills to focus on Architecture & Security: Review the login flow'',
          ''Use the backend-specialist agent with nodejs-best-practices, api-patterns skills to focus on Backend Implementation: Review the login flow''] \<and>
       map status (tasks self') = [''completed'', ''completed''] \<and>
       map result (tasks self') =
         [''MOCK RESULT for security-auditor: Analyzed Use the security-auditor agent... found 3 issues.'',
          ''MOCK RESULT for backend-specialist: Analyzed Use the backend-specialist age... found 3 issues.''] \<and>
       report_writes fs' = report_writes fs @
         [(report_file (home env) sid,
           ''# Parallel Agents Synthesis Report'' @ NL
           @ ''**Session ID**: '' @ sid @ NL
           @ ''**Main Objective**: Review the login flow'' @ NL @ NL
           @ ''---'' @ NL @ NL
           @ ''### security-auditor'' @ NL
           @ ''- **Task**: Use the security-auditor agent with security-checklist, api-patterns skills to focus on Architecture...'' @ NL
           @ ''- **Status**: completed'' @ NL
           @ ''- **Key Findings**:'' @ NL @ NL
           @ ''MOCK RESULT for security-auditor: Analyzed Use the security-auditor agent... found 3 issues.'' @ NL @ NL
           @ ''---'' @ NL @ NL
           @ ''### backend-specialist'' @ NL
           @ ''- **Task**: Use the backend-specialist agent with nodejs-best-practices, api-patterns skills to focus on Backend...'' @ NL
           @ ''- **Status**: completed'' @ NL
           @ ''- **Key Findings**:'' @ NL @ NL
           @ ''MOCK RESULT for backend-specialist: Analyzed Use the backend-specialist age... found 3 issues.'' @ NL @ NL
           @ ''---'' @ NL @ NL)]))"
  (is "_ \<and> (_ \<longrightarrow> ?report)")
proof (intro conjI impI)
  show "fst (run env (replicate 6 (Worker 0) @ replicate 6 (Worker 1) @ replicate 32 Main)
          (Orchestrator sid ''Review the login flow'' 2 True) fs) = Returns ()"
    by (rule login_flow_returns)
next
  assume returned:
    "fst (run env schedule (Orchestrator sid ''Review the login flow'' 2 True) fs) = Returns ()"
  let ?derived = "initialize_tasks (task_uuid4 env) (Orchestrator sid ''Review the login flow'' 2 True)"
  let ?saved = "snd (save_state (save_clock env 0) ?derived fs)"
  let ?start = "\<lparr>pool_self = ?derived, futures = map (\<lambda>_. Running 0) (tasks ?derived),
               main_pc = Waiting, yielded = 0, pool_fs = ?saved\<rparr>"
  let ?final = "fold (pool_step env) schedule ?start"
  have count: "agent_count ?derived = 2" and mode: "test_mode ?derived = True"
    and len: "length (tasks ?derived) = 2"
    by (simp_all add: login_flow_derived)
  have run: "run env schedule (Orchestrator sid ''Review the login flow'' 2 True) fs =
      (if yielded ?final < length (futures ?final) then (Blocks, pool_self ?final, pool_fs ?final)
       else (Returns (), synthesize (home env) (pool_self ?final) (pool_fs ?final)))"
    by (simp add: run_def Let_def case_prod_beta save_state_self count)
  with returned have drained: "\<not> yielded ?final < length (futures ?final)"
    by (auto split: if_splits)
  have "tracks env ?derived fs ?start"
    by (simp add: tracks_def save_state_def)
  then have tr: "tracks env ?derived fs ?final"
    by (rule fold_pool_step_tracks)
  have t0: "execute (worker_env env 0) True (tasks ?derived ! 0) = Returns (tasks (pool_self ?final) ! 0)"
    using tracks_drained [OF tr drained, of 0] by (simp add: len mode)
  have t1: "execute (worker_env env 1) True (tasks ?derived ! 1) = Returns (tasks (pool_self ?final) ! 1)"
    using tracks_drained [OF tr drained, of 1] by (simp add: len mode)
  from tr have "length (tasks (pool_self ?final)) = 2"
    by (simp add: tracks_def len)
  then have ts: "tasks (pool_self ?final) = [tasks (pool_self ?final) ! 0, tasks (pool_self ?final) ! 1]"
    by (rule two_tasks)
  have f0: "tasks (pool_self ?final) ! 0 =
      \<lparr>agent_id = task_uuid4 env 0,
       prompt = ''Use the security-auditor agent with security-checklist, api-patterns skills to focus on Architecture & Security: Review the login flow'',
       name = ''security-auditor'', status = ''completed'',
       result = ''MOCK RESULT for security-auditor: Analyzed Use the security-auditor agent... found 3 issues.'',
       started_at = Some (now_started (worker_env env 0)),
       ended_at = Some (now_ended (worker_env env 0)), error = None\<rparr>"
    using execute_mock_returns [OF t0] by (simp add: login_flow_derived mock_result_def)
  have f1: "tasks (pool_self ?final) ! 1 =
      \<lparr>agent_id = task_uuid4 env 1,
       prompt = ''Use the backend-specialist agent with nodejs-best-practices, api-patterns skills to focus on Backend Implementation: Review the login flow'',
       name = ''backend-specialist'', status = ''completed'',
       result = ''MOCK RESULT for backend-specialist: Analyzed Use the backend-specialist age... found 3 issues.'',
       started_at = Some (now_started (worker_env env 1)),
       ended_at = Some (now_ended (worker_env env 1)), error = None\<rparr>"
    using execute_mock_returns [OF t1] by (simp add: login_flow_derived mock_result_def)
  from tr have frame: "session_id (pool_self ?final) = sid"
    "main_prompt (pool_self ?final) = ''Review the login flow''"
    "report_writes (pool_fs ?final) = report_writes fs"
    by (simp_all add: tracks_def login_flow_derived)
  have snd_run: "snd (run env schedule (Orchestrator sid ''Review the login flow'' 2 True) fs) =
      synthesize (home env) (pool_self ?final) (pool_fs ?final)"
    using drained by (simp add: run)
  define a where "a = tasks (pool_self ?final) ! 0"
  define b where "b = tasks (pool_self ?final) ! 1"
  have ab: "tasks (pool_self ?final) = [a, b]"
    using ts by (simp add: a_def b_def)
  have a: "a =
      \<lparr>agent_id = task_uuid4 env 0,
       prompt = ''Use the security-auditor agent with security-checklist, api-patterns skills to focus on Architecture & Security: Review the login flow'',
       name = ''security-auditor'', status = ''completed'',
       result = ''MOCK RESULT for security-auditor: Analyzed Use the security-auditor agent... found 3 issues.'',
       started_at = Some (now_started (worker_env env 0)),
       ended_at = Some (now_ended (worker_env env 0)), error = None\<rparr>"
    unfolding a_def by (rule f0)
  have b: "b =
      \<lparr>agent_id = task_uuid4 env 1,
       prompt = ''Use the backend-specialist agent with nodejs-best-practices, api-patterns skills to focus on Backend Implementation: Review the login flow'',
       name = ''backend-specialist'', status = ''completed'',
       result = ''MOCK RESULT for backend-specialist: Analyzed Use the backend-specialist age... found 3 issues.'',
       started_at = Some (now_started (worker_env env 1)),
       ended_at = Some (now_ended (worker_env env 1)), error = None\<rparr>"
    unfolding b_def by (rule f1)
  have tasks_final: "tasks (fst (synthesize (home env) (pool_self ?final) (pool_fs ?final))) = [a, b]"
    using ab by (simp add: synthesize_def Let_def)
  have report: "report_writes (snd (synthesize (home env) (pool_self ?final) (pool_fs ?final)))
      = report_writes fs @ [(report_file (home env) sid,
           foldl synthesize_task (''# Parallel Agents Synthesis Report'' @ NL
           @ ''**Session ID**: '' @ sid @ NL
           @ ''**Main Objective**: Review the login flow'' @ NL @ NL
           @ ''---'' @ NL @ NL) [a, b])]"
    using ab by (simp add: synthesize_def Let_def frame)
  have names: "agent (agent_map ! 0) = ''security-auditor''"
    "agent (agent_map ! 1) = ''backend-specialist''"
    by (simp_all add: agent_map_def)
  show ?report
    unfolding snd_run case_prod_beta tasks_final report names
    by (simp add: a b synthesize_task_def Let_def)
qed

lemma sample_run_returns:
  "fst (run sample_run_env sample_schedule
         (Orchestrator session_a ''Review the login flow'' 2 True) empty_storage) = Returns ()"
  by code_simp

theorem login_flow_mock_run_witness:
  "map name (tasks (fst (snd (run sample_run_env sample_schedule
         (Orchestrator session_a ''Review the login flow'' 2 True) empty_storage))))
     = [''security-auditor'', ''backend-specialist''] \<and>
   map status (tasks (fst (snd (run sample_run_env sample_schedule
         (Orchestrator session_a ''Review the login flow'' 2 True) empty_storage))))
     = [''completed'', ''completed'']"
  using login_flow_mock_run [of sample_run_env session_a empty_storage sample_schedule]
    sample_run_returns
  by (simp add: case_prod_beta agent_map_def)

text \<open>
  The claim as stated has the mock result texts mention \<^verbatim>\<open>login flow\<close>. In a run that
  returns, neither of the two does.
\<close>

theorem login_flow_mock_run_counterexample:
  "fst (run sample_run_env sample_schedule
         (Orchestrator session_a ''Review the login flow'' 2 True) empty_storage) = Returns () \<and>
   \<not> sublist ''login flow'' (result (tasks (fst (snd (run sample_run_env sample_schedule
         (Orchestrator session_a ''Review the login flow'' 2 True) empty_storage))) ! 0)) \<and>
   \<not> sublist ''login flow'' (result (tasks (fst (snd (run sample_run_env sample_schedule
         (Orchestrator session_a ''Review the login flow'' 2 True) empty_storage))) ! 1))"
  by code_simp

end
